theory Spec2Isabelle
  imports Complex_Main "HOL-Library.AList"
begin

section \<open>Python values\<close>

text \<open>
  The exceptions that matter here. \<open>ExternalError\<close> stands for whatever a call to Notion or
  Groq raises.
\<close>

datatype py_error = KeyError | TypeError | AttributeError | ExternalError

text \<open>
  A Python float is a finite double, an infinity or NaN. Every finite double is a rational
  number and Python compares numbers by their exact value, so a finite float is modelled
  by the rational it denotes.
\<close>

datatype pyfloat = Finite rat | PosInf | NegInf | NaN

text \<open>The numbers \<^verbatim>\<open>json.loads\<close> produces; \<^verbatim>\<open>bool\<close> is a subclass of \<^verbatim>\<open>int\<close> in Python.\<close>

datatype pynum = PBool bool | PInt int | PFloat pyfloat

text \<open>
  The values \<^verbatim>\<open>json.loads\<close> produces. An object is the list of its items in insertion
  order, looked up by key.
\<close>

datatype json =
    JNull
  | JNum pynum
  | JStr string
  | JArr "json list"
  | JObj "(string \<times> json) list"

fun to_float :: "pynum \<Rightarrow> pyfloat" where
  "to_float (PBool b) = Finite (if b then 1 else 0)"
| "to_float (PInt i) = Finite (of_int i)"
| "to_float (PFloat f) = f"

text \<open>\<^verbatim>\<open>x > y\<close> on numbers: false whenever a NaN is involved.\<close>

fun float_gt :: "pyfloat \<Rightarrow> pyfloat \<Rightarrow> bool" where
  "float_gt NaN _ = False"
| "float_gt _ NaN = False"
| "float_gt (Finite a) (Finite b) = (b < a)"
| "float_gt PosInf PosInf = False"
| "float_gt PosInf _ = True"
| "float_gt _ PosInf = False"
| "float_gt NegInf _ = False"
| "float_gt (Finite a) NegInf = True"

definition num_gt :: "pynum \<Rightarrow> pynum \<Rightarrow> bool" where
  "num_gt x y = float_gt (to_float x) (to_float y)"

text \<open>
  \<^verbatim>\<open>v > n\<close> for a number \<open>n\<close> on the right: a value that is not a number (None, str,
  list, dict) raises TypeError.
\<close>

fun py_gt :: "json \<Rightarrow> pynum \<Rightarrow> py_error + bool" where
  "py_gt (JNum x) n = Inr (num_gt x n)"
| "py_gt _ n = Inl TypeError"

text \<open>Truth value testing, as \<^verbatim>\<open>if v\<close>, \<^verbatim>\<open>not v\<close> and \<^verbatim>\<open>v and ...\<close> use it.\<close>

fun truthy :: "json \<Rightarrow> bool" where
  "truthy JNull = False"
| "truthy (JNum (PBool b)) = b"
| "truthy (JNum (PInt i)) = (i \<noteq> 0)"
| "truthy (JNum (PFloat f)) = (f \<noteq> Finite 0)"
| "truthy (JStr s) = (s \<noteq> [])"
| "truthy (JArr xs) = (xs \<noteq> [])"
| "truthy (JObj kvs) = (kvs \<noteq> [])"

text \<open>\<^verbatim>\<open>v[key]\<close> with a string key: KeyError on a dict without the key, TypeError on
  anything that is not a dict.\<close>

fun subscript :: "json \<Rightarrow> string \<Rightarrow> py_error + json" where
  "subscript (JObj kvs) k = (case map_of kvs k of None \<Rightarrow> Inl KeyError | Some v \<Rightarrow> Inr v)"
| "subscript _ k = Inl TypeError"

text \<open>\<^verbatim>\<open>d.get(key)\<close> on a dict: None when the key is absent.\<close>

definition dict_get :: "(string \<times> json) list \<Rightarrow> string \<Rightarrow> json" where
  "dict_get d k = (case map_of d k of None \<Rightarrow> JNull | Some v \<Rightarrow> v)"

text \<open>
  Strings are lists of characters. Only the ASCII part of \<^verbatim>\<open>str.lower\<close> is modelled:
  the letters A to Z are mapped to a to z and every other character is left as it is.
\<close>

definition lower_char :: "char \<Rightarrow> char" where
  "lower_char c =
     (let n = (of_char c :: nat) in if 65 \<le> n \<and> n \<le> 90 then char_of (n + 32) else c)"

definition lower :: "string \<Rightarrow> string" where
  "lower s = map lower_char s"

text \<open>\<^verbatim>\<open>a in b\<close> on strings: \<open>a\<close> occurs in \<open>b\<close> as a contiguous run of characters.\<close>

fun str_prefix :: "string \<Rightarrow> string \<Rightarrow> bool" where
  "str_prefix [] ys = True"
| "str_prefix (x # xs) [] = False"
| "str_prefix (x # xs) (y # ys) = (x = y \<and> str_prefix xs ys)"

fun str_in :: "string \<Rightarrow> string \<Rightarrow> bool" where
  "str_in a [] = (a = [])"
| "str_in a (y # ys) = (str_prefix a (y # ys) \<or> str_in a ys)"

text \<open>\<^verbatim>\<open>s.split(c)\<close> for a one-character separator: the list of the segments between the
  separators, never empty.\<close>

fun split :: "char \<Rightarrow> string \<Rightarrow> string list" where
  "split c [] = [[]]"
| "split c (x # xs) =
     (if x = c then [] # split c xs
      else (case split c xs of w # ws \<Rightarrow> (x # w) # ws | [] \<Rightarrow> [[x]]))"

text \<open>\<^verbatim>\<open>sep.join(xs)\<close>.\<close>

fun join :: "string \<Rightarrow> string list \<Rightarrow> string" where
  "join sep [] = []"
| "join sep [x] = x"
| "join sep (x # y # ys) = x @ sep @ join sep (y # ys)"

section \<open>Document identifiers\<close>

text \<open>\<^verbatim>\<open>extract_page_id\<close>: \<^verbatim>\<open>url.split("-")[-1]\<close>. The list \<^verbatim>\<open>split\<close> returns is never
  empty, so the index \<^verbatim>\<open>-1\<close> is its last element.\<close>

definition extract_page_id :: "string \<Rightarrow> string" where
  "extract_page_id url = last (split (CHR ''-'') url)"

section \<open>The outside world\<close>

text \<open>
  The Notion client, the Groq client and \<^verbatim>\<open>json.loads\<close> are not part of the program.
  Every call the program makes to Notion or Groq is recorded, in order, in a trace, and the
  reply to a call may depend on all the calls made before it: the same page may read
  differently the second time, and the model may judge the same prompt differently.
\<close>

record image =
  image_url :: string
  image_caption :: string

text \<open>The dict \<^verbatim>\<open>fetch_page_content\<close> returns: always the two keys \<^verbatim>\<open>text\<close> and
  \<^verbatim>\<open>images\<close>.\<close>

record content =
  content_text :: string
  content_images :: "image list"

text \<open>\<open>NotionList page_id\<close> is \<^verbatim>\<open>notion.blocks.children.list(block_id=page_id)\<close>;
  \<open>GroqCreate temperature prompt\<close> is \<^verbatim>\<open>groq_client.chat.completions.create\<close> with one
  user message.\<close>

datatype call = NotionList string | GroqCreate rat string

type_synonym trace = "call list"

text \<open>
  \<open>NOTION_PAGES\<close> is the dict loaded from \<^verbatim>\<open>notion_sources.json\<close>, topic to URL, in
  file order. \<open>notion_page\<close> gives what \<^verbatim>\<open>fetch_page_content\<close> returns for the blocks
  Notion lists at this point (the traversal of the blocks, lines 50 to 77, is not unfolded),
  or the exception raised. \<open>groq_create\<close> gives the text of the first choice of the
  completion, or the exception raised. \<open>json_loads\<close> is \<^verbatim>\<open>json.loads\<close>, \<open>None\<close> where
  it raises.
\<close>

record world =
  NOTION_PAGES :: "(string \<times> string) list"
  notion_page :: "trace \<Rightarrow> string \<Rightarrow> py_error + content"
  groq_create :: "trace \<Rightarrow> rat \<Rightarrow> string \<Rightarrow> py_error + string"
  json_loads :: "string \<Rightarrow> json option"

definition fetch_page_content :: "world \<Rightarrow> string \<Rightarrow> trace \<Rightarrow> py_error + (content \<times> trace)" where
  "fetch_page_content w page_id tr =
     (case notion_page w tr page_id of
        Inl e \<Rightarrow> Inl e
      | Inr c \<Rightarrow> Inr (c, tr @ [NotionList page_id]))"

section \<open>Candidate selection\<close>

definition find_relevant_topics :: "world \<Rightarrow> string \<Rightarrow> string list" where
  "find_relevant_topics w query =
     (let query_lower = lower query
      in filter (\<lambda>topic. str_in (lower topic) query_lower) (map fst (NOTION_PAGES w)))"

section \<open>The relevance check\<close>

definition relevance_prompt :: "string \<Rightarrow> string \<Rightarrow> string" where
  "relevance_prompt query text_preview =
     ''\<newline>'' @
     ''    Analyze if the following documentation content can answer the user'' @ [CHR 0x27] @ ''s question.\<newline>'' @
     ''    \<newline>'' @
     ''    User Question: '' @ query @ ''\<newline>'' @
     ''    \<newline>'' @
     ''    Documentation Content Preview: '' @ text_preview @ ''\<newline>'' @
     ''    \<newline>'' @
     ''    Respond with ONLY a JSON object in this exact format:\<newline>'' @
     ''    {'' @ [CHR 0x22] @ ''relevant'' @ [CHR 0x22] @ '': true/false, '' @ [CHR 0x22] @ ''confidence'' @ [CHR 0x22] @ '': 0-100, '' @ [CHR 0x22] @ ''reason'' @ [CHR 0x22] @ '': '' @ [CHR 0x22] @ ''brief explanation'' @ [CHR 0x22] @ ''}\<newline>'' @
     ''    ''"

definition keyword_prompt :: "string \<Rightarrow> string \<Rightarrow> string \<Rightarrow> string" where
  "keyword_prompt topic context query =
     ''\<newline>'' @
     ''You are a helpful assistant for Omnivoltaic'' @ [CHR 0x27] @ ''s internal documentation.\<newline>'' @
     ''\<newline>'' @
     ''Context from '' @ [CHR 0x27] @ topic @ [CHR 0x27] @ '' documentation:\<newline>'' @
     context @ ''\<newline>'' @
     ''\<newline>'' @
     ''User Question: '' @ query @ ''\<newline>'' @
     ''\<newline>'' @
     ''Instructions:\<newline>'' @
     ''- Answer ONLY if the documentation contains relevant information\<newline>'' @
     ''- If the question cannot be answered from this documentation, clearly state: '' @ [CHR 0x22] @ ''I don'' @ [CHR 0x27] @ ''t have information about that in the documentation.'' @ [CHR 0x22] @ ''\<newline>'' @
     ''- Be specific and cite relevant details from the documentation\<newline>'' @
     ''- Keep responses clear and concise\<newline>'' @
     ''- If procedures or steps are involved, present them clearly\<newline>'' @
     ''- If there are images in the documentation that would help answer the question, mention that visual references are available\<newline>''"

definition semantic_prompt :: "string \<Rightarrow> string \<Rightarrow> string \<Rightarrow> string" where
  "semantic_prompt topic context query =
     ''\<newline>'' @
     ''You are a helpful assistant for Omnivoltaic'' @ [CHR 0x27] @ ''s internal documentation.\<newline>'' @
     ''\<newline>'' @
     ''Context from '' @ [CHR 0x27] @ topic @ [CHR 0x27] @ '' documentation:\<newline>'' @
     context @ ''\<newline>'' @
     ''\<newline>'' @
     ''User Question: '' @ query @ ''\<newline>'' @
     ''\<newline>'' @
     ''Instructions:\<newline>'' @
     ''- Answer based on the documentation provided\<newline>'' @
     ''- Be specific and cite relevant details\<newline>'' @
     ''- Keep responses clear and concise\<newline>'' @
     ''- If there are images in the documentation that would help answer the question, mention that visual references are available\<newline>''"

definition fallback_prompt :: "string \<Rightarrow> string list \<Rightarrow> string" where
  "fallback_prompt query available_topics =
     ''\<newline>'' @
     ''The user asked: '' @ [CHR 0x22] @ query @ [CHR 0x22] @ ''\<newline>'' @
     ''\<newline>'' @
     ''Unfortunately, this question cannot be answered from the available documentation topics: '' @ join '', '' available_topics @ ''.\<newline>'' @
     ''\<newline>'' @
     ''Provide a helpful response that:\<newline>'' @
     ''1. Acknowledges you don'' @ [CHR 0x27] @ ''t have documentation about this specific topic\<newline>'' @
     ''2. Lists what documentation IS available\<newline>'' @
     ''3. Suggests they contact support or rephrase their question\<newline>'' @
     ''4. Be friendly and professional\<newline>'' @
     ''\<newline>'' @
     ''Do NOT make up information or pretend to know the answer.\<newline>''"

text \<open>The dict returned by the \<^verbatim>\<open>except\<close> branch of \<^verbatim>\<open>check_content_relevance\<close>.\<close>

definition failed_relevance :: json where
  "failed_relevance =
     JObj [(''relevant'', JNum (PBool False)), (''confidence'', JNum (PInt 0)),
           (''reason'', JStr ''Failed to parse relevance'')]"

text \<open>
  The \<^verbatim>\<open>try\<close> statement of lines 113 to 122: the bare \<^verbatim>\<open>except\<close> catches whatever the
  completion call or \<^verbatim>\<open>json.loads\<close> raises; otherwise the result is whatever JSON value the
  reply parsed to.
\<close>

definition relevance_reply :: "world \<Rightarrow> trace \<Rightarrow> string \<Rightarrow> json" where
  "relevance_reply w tr prompt =
     (case groq_create w tr (1 / 10) prompt of
        Inl e \<Rightarrow> failed_relevance
      | Inr reply \<Rightarrow>
          (case json_loads w reply of
             None \<Rightarrow> failed_relevance
           | Some result \<Rightarrow> result))"

definition check_content_relevance :: "world \<Rightarrow> string \<Rightarrow> content \<Rightarrow> trace \<Rightarrow> json \<times> trace" where
  "check_content_relevance w query content tr =
     (let text_content = content_text content;
          text_preview = (if text_content \<noteq> [] then take 1500 text_content else []);
          prompt = relevance_prompt query text_preview
      in (relevance_reply w tr prompt, tr @ [GroqCreate (1 / 10) prompt]))"

text \<open>\<^verbatim>\<open>relevance["relevant"] and relevance["confidence"] > threshold\<close>, evaluated left to
  right: the confidence is read only when \<^verbatim>\<open>relevant\<close> is truthy.\<close>

definition relevant_above :: "json \<Rightarrow> pynum \<Rightarrow> py_error + bool" where
  "relevant_above relevance threshold =
     (case subscript relevance ''relevant'' of
        Inl e \<Rightarrow> Inl e
      | Inr r \<Rightarrow>
          if \<not> truthy r then Inr False
          else (case subscript relevance ''confidence'' of
                  Inl e \<Rightarrow> Inl e
                | Inr c \<Rightarrow> py_gt c threshold))"

section \<open>Search over all topics\<close>

record best_match =
  bm_topic :: string
  bm_content :: content
  bm_confidence :: json

text \<open>
  The loop state of \<^verbatim>\<open>search_all_topics\<close>: \<^verbatim>\<open>best_match\<close>, \<^verbatim>\<open>best_confidence\<close>,
  \<^verbatim>\<open>all_contents\<close> and the trace. \<^verbatim>\<open>best_confidence\<close> only ever holds a number: it starts
  as 0 and is assigned only a value that compared greater than it, and comparing anything
  but a number with a number raises TypeError.
\<close>

type_synonym search_state = "best_match option \<times> pynum \<times> (string \<times> content) list \<times> trace"

definition search_step :: "world \<Rightarrow> string \<Rightarrow> string \<times> string \<Rightarrow> search_state \<Rightarrow> py_error + search_state" where
  "search_step w query item st =
     (case (item, st) of ((topic, url), (best_match, best_confidence, all_contents, tr)) \<Rightarrow>
        (let page_id = extract_page_id url in
         case fetch_page_content w page_id tr of
           Inl e \<Rightarrow> Inl e
         | Inr (content, tr1) \<Rightarrow>
             if content_text content \<noteq> [] then
               (let all_contents1 = AList.update topic content all_contents in
                case check_content_relevance w query content tr1 of (relevance, tr2) \<Rightarrow>
                  (case relevant_above relevance best_confidence of
                     Inl e \<Rightarrow> Inl e
                   | Inr False \<Rightarrow> Inr (best_match, best_confidence, all_contents1, tr2)
                   | Inr True \<Rightarrow>
                       (case subscript relevance ''confidence'' of
                          Inr (JNum n) \<Rightarrow>
                            Inr (Some \<lparr>bm_topic = topic, bm_content = content,
                                       bm_confidence = JNum n\<rparr>,
                                 n, all_contents1, tr2)
                        | Inr _ \<Rightarrow> Inl TypeError
                        | Inl e \<Rightarrow> Inl e)))
             else Inr (best_match, best_confidence, all_contents, tr1)))"

fun search_loop :: "world \<Rightarrow> string \<Rightarrow> (string \<times> string) list \<Rightarrow> search_state \<Rightarrow> py_error + search_state" where
  "search_loop w query [] st = Inr st"
| "search_loop w query (item # items) st =
     (case search_step w query item st of
        Inl e \<Rightarrow> Inl e
      | Inr st1 \<Rightarrow> search_loop w query items st1)"

definition search_all_topics ::
  "world \<Rightarrow> string \<Rightarrow> trace \<Rightarrow> py_error + ((best_match option \<times> (string \<times> content) list) \<times> trace)" where
  "search_all_topics w query tr =
     (case search_loop w query (NOTION_PAGES w) (None, PInt 0, [], tr) of
        Inl e \<Rightarrow> Inl e
      | Inr (best_match, best_confidence, all_contents, tr1) \<Rightarrow>
          Inr ((best_match, all_contents), tr1))"

section \<open>The chat operation\<close>

text \<open>
  What the cascade of \<^verbatim>\<open>chat\<close> decides before it composes the answer: the keyword branch
  of lines 175 to 199 with the topic, its content and the verdict in scope there; the semantic
  branch of lines 205 to 227 with \<^verbatim>\<open>best_match\<close>; the fallback of lines 229 to 253.
\<close>

datatype outcome =
    KeywordMatch string content json
  | SemanticMatch best_match
  | NoMatch

text \<open>The loop of lines 167 to 175 up to its first accepted candidate.\<close>

definition keyword_step ::
  "world \<Rightarrow> string \<Rightarrow> string \<Rightarrow> trace \<Rightarrow> py_error + (outcome option \<times> trace)" where
  "keyword_step w query topic tr =
     (case map_of (NOTION_PAGES w) topic of
        None \<Rightarrow> Inl KeyError
      | Some url \<Rightarrow>
          (let page_id = extract_page_id url in
           case fetch_page_content w page_id tr of
             Inl e \<Rightarrow> Inl e
           | Inr (content_data, tr1) \<Rightarrow>
               if content_text content_data \<noteq> [] then
                 (case check_content_relevance w query content_data tr1 of (relevance, tr2) \<Rightarrow>
                    (case relevant_above relevance (PInt 60) of
                       Inl e \<Rightarrow> Inl e
                     | Inr True \<Rightarrow> Inr (Some (KeywordMatch topic content_data relevance), tr2)
                     | Inr False \<Rightarrow> Inr (None, tr2)))
               else Inr (None, tr1)))"

fun keyword_search ::
  "world \<Rightarrow> string \<Rightarrow> string list \<Rightarrow> trace \<Rightarrow> py_error + (outcome option \<times> trace)" where
  "keyword_search w query [] tr = Inr (None, tr)"
| "keyword_search w query (topic # topics) tr =
     (case keyword_step w query topic tr of
        Inl e \<Rightarrow> Inl e
      | Inr (Some m, tr1) \<Rightarrow> Inr (Some m, tr1)
      | Inr (None, tr1) \<Rightarrow> keyword_search w query topics tr1)"

text \<open>Lines 203 to 205 and the fall-through to line 229: the search over every topic and the
  test of its best match against 50.\<close>

definition semantic_search :: "world \<Rightarrow> string \<Rightarrow> trace \<Rightarrow> py_error + (outcome \<times> trace)" where
  "semantic_search w query tr =
     (case search_all_topics w query tr of
        Inl e \<Rightarrow> Inl e
      | Inr ((best_match, all_contents), tr1) \<Rightarrow>
          (case best_match of
             None \<Rightarrow> Inr (NoMatch, tr1)
           | Some bm \<Rightarrow>
               (case py_gt (bm_confidence bm) (PInt 50) of
                  Inl e \<Rightarrow> Inl e
                | Inr True \<Rightarrow> Inr (SemanticMatch bm, tr1)
                | Inr False \<Rightarrow> Inr (NoMatch, tr1))))"

text \<open>Lines 163 to 205: the keyword candidates first, then every topic. The \<^verbatim>\<open>print\<close> of
  line 202 is left out.\<close>

definition resolve :: "world \<Rightarrow> string \<Rightarrow> py_error + (outcome \<times> trace)" where
  "resolve w query =
     (let relevant_topics = find_relevant_topics w query in
      case keyword_search w query relevant_topics [] of
        Inl e \<Rightarrow> Inl e
      | Inr (Some m, tr) \<Rightarrow> Inr (m, tr)
      | Inr (None, tr) \<Rightarrow> semantic_search w query tr)"

definition ask_groq :: "world \<Rightarrow> string \<Rightarrow> trace \<Rightarrow> py_error + (string \<times> trace)" where
  "ask_groq w prompt tr =
     (case groq_create w tr (3 / 10) prompt of
        Inl e \<Rightarrow> Inl e
      | Inr answer \<Rightarrow> Inr (answer, tr @ [GroqCreate (3 / 10) prompt]))"

text \<open>The JSON bodies \<^verbatim>\<open>chat\<close> returns, with their status code.\<close>

record chat_json =
  r_topic :: "string option"
  r_response :: string
  r_confidence :: json
  r_source :: string
  r_available_topics :: "string list option"
  r_images :: "image list"

datatype body = ErrorJson string | ChatJson chat_json

type_synonym http = "body \<times> nat"

text \<open>The prompt each branch builds for the completion model.\<close>

fun answer_prompt :: "world \<Rightarrow> string \<Rightarrow> outcome \<Rightarrow> string" where
  "answer_prompt w query (KeywordMatch topic content_data relevance) =
     keyword_prompt topic (take 7000 (content_text content_data)) query"
| "answer_prompt w query (SemanticMatch bm) =
     semantic_prompt (bm_topic bm) (take 7000 (content_text (bm_content bm))) query"
| "answer_prompt w query NoMatch =
     fallback_prompt query (map fst (NOTION_PAGES w))"

text \<open>The dict each branch returns once the answer is there.\<close>

fun answer_json :: "world \<Rightarrow> outcome \<Rightarrow> string \<Rightarrow> py_error + chat_json" where
  "answer_json w (KeywordMatch topic content_data relevance) answer =
     (case subscript relevance ''confidence'' of
        Inl e \<Rightarrow> Inl e
      | Inr c \<Rightarrow>
          Inr \<lparr>r_topic = Some topic, r_response = answer, r_confidence = c,
               r_source = ''keyword_match'', r_available_topics = None,
               r_images = content_images content_data\<rparr>)"
| "answer_json w (SemanticMatch bm) answer =
     Inr \<lparr>r_topic = Some (bm_topic bm), r_response = answer, r_confidence = bm_confidence bm,
          r_source = ''semantic_search'', r_available_topics = None,
          r_images = content_images (bm_content bm)\<rparr>"
| "answer_json w NoMatch answer =
     Inr \<lparr>r_topic = None, r_response = answer, r_confidence = JNum (PInt 0),
          r_source = ''no_match'', r_available_topics = Some (map fst (NOTION_PAGES w)),
          r_images = []\<rparr>"

definition compose :: "world \<Rightarrow> string \<Rightarrow> outcome \<Rightarrow> trace \<Rightarrow> py_error + (http \<times> trace)" where
  "compose w query out tr =
     (case ask_groq w (answer_prompt w query out) tr of
        Inl e \<Rightarrow> Inl e
      | Inr (answer, tr1) \<Rightarrow>
          (case answer_json w out answer of
             Inl e \<Rightarrow> Inl e
           | Inr j \<Rightarrow> Inr ((ChatJson j, 200), tr1)))"

text \<open>
  \<^verbatim>\<open>data.get(key)\<close> on whatever \<^verbatim>\<open>request.get_json()\<close> returned: only a dict has a
  \<^verbatim>\<open>get\<close> method; on None, a list, a string or a number the attribute lookup raises.
\<close>

fun py_get :: "json \<Rightarrow> string \<Rightarrow> py_error + json" where
  "py_get (JObj d) k = Inr (dict_get d k)"
| "py_get _ k = Inl AttributeError"

text \<open>
  \<^verbatim>\<open>chat\<close>, on the decoded JSON body of the request, which may be any JSON value. A query
  that is truthy but not a string has no \<^verbatim>\<open>lower\<close> method.
\<close>

definition chat :: "world \<Rightarrow> json \<Rightarrow> py_error + (http \<times> trace)" where
  "chat w data =
     (case py_get data ''query'' of
        Inl e \<Rightarrow> Inl e
      | Inr query \<Rightarrow>
          if \<not> truthy query then Inr ((ErrorJson ''No query provided'', 400), [])
          else (case query of
                  JStr q \<Rightarrow>
                    (case resolve w q of
                       Inl e \<Rightarrow> Inl e
                     | Inr (out, tr) \<Rightarrow> compose w q out tr)
                | _ \<Rightarrow> Inl AttributeError))"

section \<open>What a trace records\<close>

text \<open>
  \<open>fetched w tr topic c\<close>: some call of the trace listed the blocks of the page of \<open>topic\<close>,
  and \<open>c\<close> is what \<^verbatim>\<open>fetch_page_content\<close> returned for it then.
\<close>

definition fetched :: "world \<Rightarrow> trace \<Rightarrow> string \<Rightarrow> content \<Rightarrow> bool" where
  "fetched w tr topic c =
     (\<exists>url \<in> set (map snd (filter (\<lambda>item. fst item = topic) (NOTION_PAGES w))).
        \<exists>i < length tr. tr ! i = NotionList (extract_page_id url) \<and>
          notion_page w (take i tr) (extract_page_id url) = Inr c)"

text \<open>
  \<open>scored w tr query c v\<close>: some call of the trace asked for the relevance of the first 1500
  characters of \<open>c\<close> to \<open>query\<close>, and \<open>v\<close> is the verdict \<^verbatim>\<open>check_content_relevance\<close>
  returned then.
\<close>

definition scored :: "world \<Rightarrow> trace \<Rightarrow> string \<Rightarrow> content \<Rightarrow> json \<Rightarrow> bool" where
  "scored w tr query c v =
     (\<exists>i < length tr.
        tr ! i = GroqCreate (1 / 10) (relevance_prompt query (take 1500 (content_text c))) \<and>
        relevance_reply w (take i tr) (relevance_prompt query (take 1500 (content_text c))) = v)"

text \<open>
  What the loop of \<^verbatim>\<open>search_all_topics\<close> maintains: with no best match the best
  confidence is still 0; a best match carries the best confidence, which is above 0, and the
  content of a fetch of its topic, with text, that was scored relevant with that confidence.
\<close>

definition tracked :: "world \<Rightarrow> string \<Rightarrow> search_state \<Rightarrow> bool" where
  "tracked w query st =
     (case st of (best_match, best_confidence, all_contents, tr) \<Rightarrow>
        (case best_match of
           None \<Rightarrow> best_confidence = PInt 0
         | Some bm \<Rightarrow>
             bm_confidence bm = JNum best_confidence \<and> num_gt best_confidence (PInt 0) \<and>
             content_text (bm_content bm) \<noteq> [] \<and>
             fetched w tr (bm_topic bm) (bm_content bm) \<and>
             (\<exists>v r. scored w tr query (bm_content bm) v \<and>
                subscript v ''relevant'' = Inr r \<and> truthy r \<and>
                subscript v ''confidence'' = Inr (JNum best_confidence))))"


text \<open>The calls resolution makes: fetches, and completions at temperature 0.1.\<close>

definition resolution_call :: "call \<Rightarrow> bool" where
  "resolution_call c =
     (case c of NotionList page_id \<Rightarrow> True | GroqCreate temperature prompt \<Rightarrow> temperature = 1 / 10)"

text \<open>
  \<open>relevant_with v y\<close>: the verdict \<open>v\<close> passes the truth test on \<^verbatim>\<open>relevant\<close> and its
  confidence is the number \<open>y\<close>.
\<close>

definition relevant_with :: "json \<Rightarrow> pynum \<Rightarrow> bool" where
  "relevant_with v y =
     ((case subscript v ''relevant'' of Inl e \<Rightarrow> False | Inr r \<Rightarrow> truthy r) \<and>
      subscript v ''confidence'' = Inr (JNum y))"

text \<open>
  What the loop of \<^verbatim>\<open>search_all_topics\<close> gets to see, in catalog order: for every topic
  whose page has text, the topic, the content fetched and the verdict returned for it, each
  asked for at the trace the loop has reached by then. A topic with an empty page
  contributes nothing; a fetch that raises ends the list, as it ends the loop.
\<close>

record observation =
  ob_topic :: string
  ob_content :: content
  ob_verdict :: json

fun observations :: "world \<Rightarrow> string \<Rightarrow> (string \<times> string) list \<Rightarrow> trace \<Rightarrow> observation list" where
  "observations w query [] tr = []"
| "observations w query ((topic, url) # items) tr =
     (case notion_page w tr (extract_page_id url) of
        Inl e \<Rightarrow> []
      | Inr c \<Rightarrow>
          if content_text c = []
          then observations w query items (tr @ [NotionList (extract_page_id url)])
          else \<lparr>ob_topic = topic, ob_content = c,
                ob_verdict = relevance_reply w (tr @ [NotionList (extract_page_id url)])
                  (relevance_prompt query (take 1500 (content_text c)))\<rparr> #
               observations w query items
                 (tr @ [NotionList (extract_page_id url),
                        GroqCreate (1 / 10) (relevance_prompt query (take 1500 (content_text c)))]))"

section \<open>Example worlds\<close>

definition verdict :: "bool \<Rightarrow> int \<Rightarrow> json" where
  "verdict r c =
     JObj [(''relevant'', JNum (PBool r)), (''confidence'', JNum (PInt c)),
           (''reason'', JStr ''because'')]"

definition page :: "string \<Rightarrow> content" where
  "page s = \<lparr>content_text = s, content_images = []\<rparr>"

text \<open>Two topics; every page reads \<open>s\<close>, every reply parses to the verdict \<open>v\<close>.\<close>

definition battery_world :: "string \<Rightarrow> json \<Rightarrow> world" where
  "battery_world s v =
     \<lparr>NOTION_PAGES = [(''Battery'', ''url-ending-id1''), (''Charger'', ''url-ending-id2'')],
      notion_page = (\<lambda>tr page_id. Inr (page s)),
      groq_create = (\<lambda>tr temperature prompt. Inr ''reply''),
      json_loads = (\<lambda>reply. Some v)\<rparr>"

definition ab_world :: world where
  "ab_world =
     \<lparr>NOTION_PAGES = [(''A'', ''x-doc1''), (''B'', ''x-doc2'')],
      notion_page = (\<lambda>tr page_id. Inr (page (''About '' @ page_id))),
      groq_create = (\<lambda>tr temperature prompt. Inr ''reply''),
      json_loads = (\<lambda>reply. Some (verdict True 75))\<rparr>"

text \<open>A world whose completion calls all raise.\<close>

definition down_world :: world where
  "down_world =
     \<lparr>NOTION_PAGES = [(''Battery'', ''url-ending-id1'')],
      notion_page = (\<lambda>tr page_id. Inr (page ''Keep it charged.'')),
      groq_create = (\<lambda>tr temperature prompt. Inl ExternalError),
      json_loads = (\<lambda>reply. None)\<rparr>"

text \<open>
  Worlds whose verdict depends on the call: the first relevance call (made after one fetch)
  is answered differently from the later ones.
\<close>

definition xyz_world :: world where
  "xyz_world =
     \<lparr>NOTION_PAGES = [(''X'', ''x-doc1''), (''Y'', ''x-doc2''), (''Z'', ''x-doc3'')],
      notion_page = (\<lambda>tr page_id. Inr (page (''About '' @ page_id))),
      groq_create = (\<lambda>tr temperature prompt. Inr (if length tr \<le> 1 then ''low'' else ''high'')),
      json_loads = (\<lambda>reply. Some (if reply = ''low'' then verdict True 30 else verdict True 90))\<rparr>"

definition mixed_world :: world where
  "mixed_world =
     \<lparr>NOTION_PAGES = [(''A'', ''x-doc1''), (''B'', ''x-doc2'')],
      notion_page = (\<lambda>tr page_id. Inr (page (''About '' @ page_id))),
      groq_create = (\<lambda>tr temperature prompt. Inr (if length tr \<le> 1 then ''first'' else ''later'')),
      json_loads = (\<lambda>reply. Some (if reply = ''first''
         then JObj [(''relevant'', JStr ''false''), (''confidence'', JNum (PInt 90))]
         else verdict True 80))\<rparr>"

section \<open>Properties of the document identifier\<close>

lemma split_nonempty: "split c s \<noteq> []"
  by (induction s) (auto split: list.splits)

lemma split_no_sep: "c \<notin> set s \<Longrightarrow> split c s = [s]"
  by (induction s) auto

lemma last_split_no_sep: "c \<notin> set (last (split c s))"
  by (induction s) (auto simp: split_nonempty split: list.splits)

lemma split_sep_two: "c \<in> set s \<Longrightarrow> \<exists>w v vs. split c s = w # v # vs"
proof (induction s)
  case Nil
  then show ?case by simp
next
  case (Cons x xs)
  show ?case
  proof (cases "x = c")
    case True
    then show ?thesis
      using split_nonempty [of c xs] by (cases "split c xs") auto
  next
    case False
    then have "c \<in> set xs" using Cons.prems by simp
    then obtain w v vs where "split c xs = w # v # vs"
      using Cons.IH by blast
    then show ?thesis using False by simp
  qed
qed

lemma last_split_suffix:
  "c \<in> set s \<Longrightarrow> \<exists>pre. s = pre @ [c] @ last (split c s)"
proof (induction s)
  case Nil
  then show ?case by simp
next
  case (Cons x xs)
  show ?case
  proof (cases "c \<in> set xs")
    case True
    then obtain pre where pre: "xs = pre @ [c] @ last (split c xs)"
      using Cons.IH by blast
    have "last (split c (x # xs)) = last (split c xs)"
      using split_sep_two [OF True] by auto
    then have "x # xs = (x # pre) @ [c] @ last (split c (x # xs))"
      using pre by simp
    then show ?thesis by blast
  next
    case False
    then have x: "x = c" using Cons.prems by simp
    have "last (split c (x # xs)) = xs"
      using False x by (simp add: split_no_sep split_nonempty)
    then have "x # xs = [] @ [c] @ last (split c (x # xs))"
      using x by simp
    then show ?thesis by blast
  qed
qed

text \<open>
  Claim C7. The identifier derived from a document reference is the segment after its last
  hyphen: it contains no hyphen, and the reference is some prefix, a hyphen, and the
  identifier; for \<^verbatim>\<open>https://example.com/Battery-Guide-abc123def456\<close> it is
  \<^verbatim>\<open>abc123def456\<close>. A reference without a hyphen is returned whole (not as the empty
  string).
\<close>

theorem extract_page_id_trailing_segment:
  "CHR ''-'' \<notin> set (extract_page_id url)
   \<and> (if CHR ''-'' \<in> set url then \<exists>pre. url = pre @ ''-'' @ extract_page_id url
       else extract_page_id url = url)
   \<and> extract_page_id ''https://example.com/Battery-Guide-abc123def456'' = ''abc123def456''"
proof -
  have a: "CHR ''-'' \<notin> set (extract_page_id url)"
    by (simp add: extract_page_id_def last_split_no_sep)
  have b: "CHR ''-'' \<in> set url \<Longrightarrow> \<exists>pre. url = pre @ ''-'' @ extract_page_id url"
    using last_split_suffix [of "CHR ''-''" url] by (simp add: extract_page_id_def)
  have c: "CHR ''-'' \<notin> set url \<Longrightarrow> extract_page_id url = url"
    by (simp add: extract_page_id_def split_no_sep)
  have d: "extract_page_id ''https://example.com/Battery-Guide-abc123def456'' = ''abc123def456''"
    by (simp add: extract_page_id_def)
  show ?thesis using a b c d by simp
qed

theorem extract_page_id_trailing_segment_witness:
  "CHR ''-'' \<in> set ''url-ending-id1''
   \<and> (\<exists>pre. ''url-ending-id1'' = pre @ ''-'' @ extract_page_id ''url-ending-id1'')
   \<and> CHR ''-'' \<notin> set ''id1'' \<and> extract_page_id ''id1'' = ''id1''"
  using extract_page_id_trailing_segment [of "''url-ending-id1''"]
    extract_page_id_trailing_segment [of "''id1''"]
  by simp

text \<open>
  Claim C7 as stated fails where the reference has no hyphen: the identifier derived from
  \<^verbatim>\<open>abc123def456\<close> is not the empty string.
\<close>

theorem extract_page_id_no_hyphen_counterexample:
  "CHR ''-'' \<notin> set ''abc123def456'' \<and> extract_page_id ''abc123def456'' \<noteq> []"
  by (simp add: extract_page_id_def)

section \<open>Properties of candidate selection\<close>

lemma str_prefix_iff: "str_prefix a b \<longleftrightarrow> (\<exists>ss. b = a @ ss)"
  by (induction a b rule: str_prefix.induct) auto

lemma str_in_iff: "str_in a b \<longleftrightarrow> (\<exists>ps ss. b = ps @ a @ ss)"
proof (induction b)
  case Nil
  then show ?case by auto
next
  case (Cons y ys)
  show ?case
  proof
    assume "str_in a (y # ys)"
    then consider "str_prefix a (y # ys)" | "str_in a ys" by auto
    then show "\<exists>ps ss. y # ys = ps @ a @ ss"
    proof cases
      case 1
      then obtain ss where "y # ys = a @ ss" using str_prefix_iff by blast
      then have "y # ys = [] @ a @ ss" by simp
      then show ?thesis by blast
    next
      case 2
      then obtain ps ss where "ys = ps @ a @ ss" using Cons.IH by blast
      then have "y # ys = (y # ps) @ a @ ss" by simp
      then show ?thesis by blast
    qed
  next
    assume "\<exists>ps ss. y # ys = ps @ a @ ss"
    then obtain ps ss where e: "y # ys = ps @ a @ ss" by blast
    show "str_in a (y # ys)"
    proof (cases ps)
      case Nil
      then have "str_prefix a (y # ys)" using e str_prefix_iff by auto
      then show ?thesis by simp
    next
      case (Cons p ps')
      then have "ys = ps' @ a @ ss" using e by simp
      then have "str_in a ys" using Cons.IH by blast
      then show ?thesis by simp
    qed
  qed
qed

lemma find_relevant_topics_filter:
  "find_relevant_topics w query =
     filter (\<lambda>topic. \<exists>ps ss. lower query = ps @ lower topic @ ss) (map fst (NOTION_PAGES w))"
  by (simp add: find_relevant_topics_def str_in_iff)

text \<open>
  Claim C4. The candidates are exactly the catalog topics whose lower-cased name occurs as a
  substring of the lower-cased query, in catalog order. When no topic name occurs in the
  query the candidate list is empty, and resolution is the search over all topics, started
  with no call made.
\<close>

theorem find_relevant_topics_substrings_in_order:
  "find_relevant_topics w query =
     filter (\<lambda>topic. \<exists>ps ss. lower query = ps @ lower topic @ ss) (map fst (NOTION_PAGES w))
   \<and> ((\<forall>topic \<in> set (map fst (NOTION_PAGES w)).
          \<not> (\<exists>ps ss. lower query = ps @ lower topic @ ss))
        \<longrightarrow> find_relevant_topics w query = [] \<and> resolve w query = semantic_search w query [])"
proof -
  have a: "find_relevant_topics w query =
     filter (\<lambda>topic. \<exists>ps ss. lower query = ps @ lower topic @ ss) (map fst (NOTION_PAGES w))"
    by (rule find_relevant_topics_filter)
  have b: "find_relevant_topics w query = [] \<Longrightarrow> resolve w query = semantic_search w query []"
    by (simp add: resolve_def)
  have c: "(\<forall>topic \<in> set (map fst (NOTION_PAGES w)).
              \<not> (\<exists>ps ss. lower query = ps @ lower topic @ ss))
        \<Longrightarrow> find_relevant_topics w query = []"
    unfolding a by (simp add: filter_empty_conv)
  show ?thesis using a b c by blast
qed

theorem find_relevant_topics_substrings_in_order_witness:
  "\<not> (\<exists>topic \<in> set (map fst (NOTION_PAGES ab_world)).
        \<exists>ps ss. lower ''help'' = ps @ lower topic @ ss)
   \<and> find_relevant_topics ab_world ''help'' = []
   \<and> resolve ab_world ''help'' = semantic_search ab_world ''help'' []"
proof -
  have "\<forall>topic \<in> set (map fst (NOTION_PAGES ab_world)). \<not> str_in (lower topic) (lower ''help'')"
    by code_simp
  then have h: "\<forall>topic \<in> set (map fst (NOTION_PAGES ab_world)).
      \<not> (\<exists>ps ss. lower ''help'' = ps @ lower topic @ ss)"
    by (simp only: str_in_iff)
  show ?thesis
    using h find_relevant_topics_substrings_in_order [of ab_world "''help''"] by blast
qed

section \<open>Numbers, verdicts and single passes of the loops\<close>

lemma float_gt_irrefl: "\<not> float_gt a a"
  by (cases a) auto

lemma float_gt_trans: "float_gt a b \<Longrightarrow> float_gt b c \<Longrightarrow> float_gt a c"
  by (cases a; cases b; cases c) auto

lemma num_gt_irrefl: "\<not> num_gt x x"
  by (simp add: num_gt_def float_gt_irrefl)

lemma num_gt_trans: "num_gt a b \<Longrightarrow> num_gt b c \<Longrightarrow> num_gt a c"
  unfolding num_gt_def by (rule float_gt_trans)


lemma check_content_relevance_eq:
  "check_content_relevance w query c tr =
     (relevance_reply w tr (relevance_prompt query (take 1500 (content_text c))),
      tr @ [GroqCreate (1 / 10) (relevance_prompt query (take 1500 (content_text c)))])"
  by (simp add: check_content_relevance_def Let_def)

lemma relevant_above_True_iff:
  "relevant_above v n = Inr True \<longleftrightarrow>
     (\<exists>r x. subscript v ''relevant'' = Inr r \<and> truthy r \<and>
            subscript v ''confidence'' = Inr (JNum x) \<and> num_gt x n)"
proof
  assume a: "relevant_above v n = Inr True"
  then obtain r where r: "subscript v ''relevant'' = Inr r"
    by (auto simp: relevant_above_def split: sum.splits)
  with a have t: "truthy r"
    by (auto simp: relevant_above_def split: if_splits)
  with a r obtain c where c: "subscript v ''confidence'' = Inr c" "py_gt c n = Inr True"
    by (auto simp: relevant_above_def split: sum.splits)
  then obtain x where "c = JNum x" "num_gt x n"
    by (cases c) auto
  with r t c show "\<exists>r x. subscript v ''relevant'' = Inr r \<and> truthy r \<and>
            subscript v ''confidence'' = Inr (JNum x) \<and> num_gt x n"
    by blast
next
  assume "\<exists>r x. subscript v ''relevant'' = Inr r \<and> truthy r \<and>
            subscript v ''confidence'' = Inr (JNum x) \<and> num_gt x n"
  then show "relevant_above v n = Inr True"
    by (auto simp: relevant_above_def)
qed

lemma relevant_above_False_iff:
  "relevant_above v n = Inr False \<longleftrightarrow>
     (\<exists>r. subscript v ''relevant'' = Inr r \<and>
        (\<not> truthy r \<or> (\<exists>x. subscript v ''confidence'' = Inr (JNum x) \<and> \<not> num_gt x n)))"
proof
  assume a: "relevant_above v n = Inr False"
  then obtain r where r: "subscript v ''relevant'' = Inr r"
    by (auto simp: relevant_above_def split: sum.splits)
  show "\<exists>r. subscript v ''relevant'' = Inr r \<and>
        (\<not> truthy r \<or> (\<exists>x. subscript v ''confidence'' = Inr (JNum x) \<and> \<not> num_gt x n))"
  proof (cases "truthy r")
    case False
    with r show ?thesis by blast
  next
    case True
    with a r obtain c where c: "subscript v ''confidence'' = Inr c" "py_gt c n = Inr False"
      by (auto simp: relevant_above_def split: sum.splits)
    then obtain x where "c = JNum x" "\<not> num_gt x n"
      by (cases c) auto
    with r c show ?thesis by blast
  qed
next
  assume "\<exists>r. subscript v ''relevant'' = Inr r \<and>
        (\<not> truthy r \<or> (\<exists>x. subscript v ''confidence'' = Inr (JNum x) \<and> \<not> num_gt x n))"
  then show "relevant_above v n = Inr False"
    by (auto simp: relevant_above_def)
qed

lemma failed_relevance_fields:
  "subscript failed_relevance ''relevant'' = Inr (JNum (PBool False))"
  "subscript failed_relevance ''confidence'' = Inr (JNum (PInt 0))"
  "subscript failed_relevance ''reason'' = Inr (JStr ''Failed to parse relevance'')"
  by (simp_all add: failed_relevance_def)

lemma relevant_above_failed: "relevant_above failed_relevance n = Inr False"
  by (simp add: relevant_above_def failed_relevance_fields)

lemma relevance_reply_failed:
  "(\<exists>e. groq_create w tr (1 / 10) p = Inl e) \<or>
   (\<exists>reply. groq_create w tr (1 / 10) p = Inr reply \<and> json_loads w reply = None)
   \<Longrightarrow> relevance_reply w tr p = failed_relevance"
  by (auto simp: relevance_reply_def)

text \<open>One pass of each loop, case by case.\<close>

lemma keyword_step_empty:
  "map_of (NOTION_PAGES w) topic = Some url \<Longrightarrow>
   notion_page w tr (extract_page_id url) = Inr c \<Longrightarrow> content_text c = [] \<Longrightarrow>
   keyword_step w query topic tr = Inr (None, tr @ [NotionList (extract_page_id url)])"
  by (simp add: keyword_step_def fetch_page_content_def)

lemma keyword_step_scored:
  "map_of (NOTION_PAGES w) topic = Some url \<Longrightarrow>
   notion_page w tr (extract_page_id url) = Inr c \<Longrightarrow> content_text c \<noteq> [] \<Longrightarrow>
   keyword_step w query topic tr =
     (let p = relevance_prompt query (take 1500 (content_text c));
          tr1 = tr @ [NotionList (extract_page_id url)];
          v = relevance_reply w tr1 p
      in case relevant_above v (PInt 60) of
           Inl e \<Rightarrow> Inl e
         | Inr True \<Rightarrow> Inr (Some (KeywordMatch topic c v), tr1 @ [GroqCreate (1 / 10) p])
         | Inr False \<Rightarrow> Inr (None, tr1 @ [GroqCreate (1 / 10) p]))"
  by (simp add: keyword_step_def fetch_page_content_def check_content_relevance_eq Let_def)

lemma search_step_empty:
  "notion_page w tr (extract_page_id url) = Inr c \<Longrightarrow> content_text c = [] \<Longrightarrow>
   search_step w query (topic, url) (bm, bc, ac, tr) =
     Inr (bm, bc, ac, tr @ [NotionList (extract_page_id url)])"
  by (simp add: search_step_def fetch_page_content_def)

lemma search_step_rejected:
  "notion_page w tr (extract_page_id url) = Inr c \<Longrightarrow> content_text c \<noteq> [] \<Longrightarrow>
   relevant_above (relevance_reply w (tr @ [NotionList (extract_page_id url)])
      (relevance_prompt query (take 1500 (content_text c)))) bc = Inr False \<Longrightarrow>
   search_step w query (topic, url) (bm, bc, ac, tr) =
     Inr (bm, bc, AList.update topic c ac,
          tr @ [NotionList (extract_page_id url),
                GroqCreate (1 / 10) (relevance_prompt query (take 1500 (content_text c)))])"
  by (simp add: search_step_def fetch_page_content_def check_content_relevance_eq Let_def)

lemma search_step_accepted:
  "notion_page w tr (extract_page_id url) = Inr c \<Longrightarrow> content_text c \<noteq> [] \<Longrightarrow>
   subscript (relevance_reply w (tr @ [NotionList (extract_page_id url)])
      (relevance_prompt query (take 1500 (content_text c)))) ''relevant'' = Inr r \<Longrightarrow>
   truthy r \<Longrightarrow>
   subscript (relevance_reply w (tr @ [NotionList (extract_page_id url)])
      (relevance_prompt query (take 1500 (content_text c)))) ''confidence'' = Inr (JNum x) \<Longrightarrow>
   num_gt x bc \<Longrightarrow>
   search_step w query (topic, url) (bm, bc, ac, tr) =
     Inr (Some \<lparr>bm_topic = topic, bm_content = c, bm_confidence = JNum x\<rparr>, x,
          AList.update topic c ac,
          tr @ [NotionList (extract_page_id url),
                GroqCreate (1 / 10) (relevance_prompt query (take 1500 (content_text c)))])"
  by (simp add: search_step_def fetch_page_content_def check_content_relevance_eq Let_def
      relevant_above_def)

lemma search_step_cases:
  assumes "search_step w query (topic, url) (bm, bc, ac, tr) = Inr st1"
  obtains
    (empty) c where "notion_page w tr (extract_page_id url) = Inr c" "content_text c = []"
      "st1 = (bm, bc, ac, tr @ [NotionList (extract_page_id url)])"
  | (rejected) c where "notion_page w tr (extract_page_id url) = Inr c" "content_text c \<noteq> []"
      "relevant_above (relevance_reply w (tr @ [NotionList (extract_page_id url)])
         (relevance_prompt query (take 1500 (content_text c)))) bc = Inr False"
      "st1 = (bm, bc, AList.update topic c ac,
          tr @ [NotionList (extract_page_id url),
                GroqCreate (1 / 10) (relevance_prompt query (take 1500 (content_text c)))])"
  | (accepted) c r x where "notion_page w tr (extract_page_id url) = Inr c" "content_text c \<noteq> []"
      "subscript (relevance_reply w (tr @ [NotionList (extract_page_id url)])
         (relevance_prompt query (take 1500 (content_text c)))) ''relevant'' = Inr r"
      "truthy r"
      "subscript (relevance_reply w (tr @ [NotionList (extract_page_id url)])
         (relevance_prompt query (take 1500 (content_text c)))) ''confidence'' = Inr (JNum x)"
      "num_gt x bc"
      "st1 = (Some \<lparr>bm_topic = topic, bm_content = c, bm_confidence = JNum x\<rparr>, x,
          AList.update topic c ac,
          tr @ [NotionList (extract_page_id url),
                GroqCreate (1 / 10) (relevance_prompt query (take 1500 (content_text c)))])"
proof -
  obtain c where c: "notion_page w tr (extract_page_id url) = Inr c"
    using assms
    by (cases "notion_page w tr (extract_page_id url)")
      (simp_all add: search_step_def fetch_page_content_def)
  show thesis
  proof (cases "content_text c = []")
    case True
    then show thesis using assms c empty search_step_empty by fastforce
  next
    case False
    let ?v = "relevance_reply w (tr @ [NotionList (extract_page_id url)])
         (relevance_prompt query (take 1500 (content_text c)))"
    from assms c False obtain b where b: "relevant_above ?v bc = Inr b"
      by (auto simp: search_step_def fetch_page_content_def check_content_relevance_eq Let_def
          split: sum.splits)
    show thesis
    proof (cases b)
      case False
      with b have "relevant_above ?v bc = Inr False" by simp
      then show thesis
        using assms c \<open>content_text c \<noteq> []\<close> rejected search_step_rejected by fastforce
    next
      case True
      with b have "relevant_above ?v bc = Inr True" by simp
      then obtain r x where rx: "subscript ?v ''relevant'' = Inr r" "truthy r"
          "subscript ?v ''confidence'' = Inr (JNum x)" "num_gt x bc"
        using relevant_above_True_iff by blast
      then show thesis
        using assms c \<open>content_text c \<noteq> []\<close> accepted [OF c _ rx]
          search_step_accepted [OF c _ rx] by fastforce
    qed
  qed
qed

section \<open>Properties of the search over all topics\<close>

lemma fetched_append: "fetched w tr topic c \<Longrightarrow> fetched w (tr @ ext) topic c"
proof -
  assume "fetched w tr topic c"
  then obtain url i where u: "url \<in> set (map snd (filter (\<lambda>item. fst item = topic) (NOTION_PAGES w)))"
    and i: "i < length tr" "tr ! i = NotionList (extract_page_id url)"
      "notion_page w (take i tr) (extract_page_id url) = Inr c"
    unfolding fetched_def by blast
  from i have "i < length (tr @ ext)" "(tr @ ext) ! i = NotionList (extract_page_id url)"
    "notion_page w (take i (tr @ ext)) (extract_page_id url) = Inr c"
    by (simp_all add: nth_append)
  with u show ?thesis unfolding fetched_def by blast
qed

lemma fetched_here:
  assumes "(topic, url) \<in> set (NOTION_PAGES w)"
    and "notion_page w tr (extract_page_id url) = Inr c"
  shows "fetched w (tr @ NotionList (extract_page_id url) # ext) topic c"
proof -
  have u: "url \<in> set (map snd (filter (\<lambda>item. fst item = topic) (NOTION_PAGES w)))"
    using assms(1) by force
  let ?t = "tr @ NotionList (extract_page_id url) # ext"
  have "length tr < length ?t" "?t ! length tr = NotionList (extract_page_id url)"
    "notion_page w (take (length tr) ?t) (extract_page_id url) = Inr c"
    using assms(2) by simp_all
  with u show ?thesis unfolding fetched_def by blast
qed

lemma scored_append: "scored w tr query c v \<Longrightarrow> scored w (tr @ ext) query c v"
proof -
  let ?p = "relevance_prompt query (take 1500 (content_text c))"
  assume "scored w tr query c v"
  then obtain i where i: "i < length tr" "tr ! i = GroqCreate (1 / 10) ?p"
      "relevance_reply w (take i tr) ?p = v"
    unfolding scored_def by blast
  then have "i < length (tr @ ext)" "(tr @ ext) ! i = GroqCreate (1 / 10) ?p"
      "relevance_reply w (take i (tr @ ext)) ?p = v"
    by (simp_all add: nth_append)
  then show ?thesis unfolding scored_def by blast
qed

lemma scored_here:
  "scored w (tr @ GroqCreate (1 / 10) (relevance_prompt query (take 1500 (content_text c))) # ext)
     query c (relevance_reply w tr (relevance_prompt query (take 1500 (content_text c))))"
proof -
  let ?p = "relevance_prompt query (take 1500 (content_text c))"
  let ?t = "tr @ GroqCreate (1 / 10) ?p # ext"
  have "length tr < length ?t" "?t ! length tr = GroqCreate (1 / 10) ?p"
    "relevance_reply w (take (length tr) ?t) ?p = relevance_reply w tr ?p"
    by simp_all
  then show ?thesis unfolding scored_def by blast
qed

lemma tracked_step:
  assumes item: "item \<in> set (NOTION_PAGES w)"
    and inv: "tracked w query st"
    and step: "search_step w query item st = Inr st1"
  shows "tracked w query st1"
proof -
  obtain topic url where it: "item = (topic, url)" by (cases item)
  obtain bm bc ac tr where st: "st = (bm, bc, ac, tr)" by (cases st)
  let ?id = "extract_page_id url"
  from step it st have s: "search_step w query (topic, url) (bm, bc, ac, tr) = Inr st1" by simp
  from s show ?thesis
  proof (cases rule: search_step_cases)
    case (empty c)
    have "tracked w query (bm, bc, ac, tr @ [NotionList ?id])"
      using inv st
      by (cases bm) (auto simp: tracked_def intro: fetched_append scored_append)
    then show ?thesis using empty by simp
  next
    case (rejected c)
    let ?p = "relevance_prompt query (take 1500 (content_text c))"
    have "tracked w query (bm, bc, AList.update topic c ac, tr @ [NotionList ?id, GroqCreate (1 / 10) ?p])"
      using inv st
      by (cases bm) (auto simp: tracked_def intro: fetched_append scored_append)
    then show ?thesis using rejected by simp
  next
    case (accepted c r x)
    let ?p = "relevance_prompt query (take 1500 (content_text c))"
    let ?v = "relevance_reply w (tr @ [NotionList ?id]) ?p"
    have pos: "num_gt x (PInt 0)"
    proof (cases bm)
      case None
      then have "bc = PInt 0" using inv st by (simp add: tracked_def)
      then show ?thesis using accepted by simp
    next
      case (Some m)
      then have "num_gt bc (PInt 0)" using inv st by (simp add: tracked_def)
      then show ?thesis using accepted num_gt_trans by blast
    qed
    have f: "fetched w (tr @ NotionList ?id # [GroqCreate (1 / 10) ?p]) topic c"
      using fetched_here item it accepted(1) by blast
    have "scored w ((tr @ [NotionList ?id]) @ GroqCreate (1 / 10) ?p # []) query c ?v"
      by (rule scored_here)
    then have sc: "scored w (tr @ [NotionList ?id, GroqCreate (1 / 10) ?p]) query c ?v"
      by simp
    have "tracked w query (Some \<lparr>bm_topic = topic, bm_content = c, bm_confidence = JNum x\<rparr>, x,
          AList.update topic c ac, tr @ [NotionList ?id, GroqCreate (1 / 10) ?p])"
      unfolding tracked_def using pos f sc accepted by auto
    then show ?thesis using accepted by simp
  qed
qed

lemma tracked_loop:
  "set items \<subseteq> set (NOTION_PAGES w) \<Longrightarrow> tracked w query st \<Longrightarrow>
   search_loop w query items st = Inr st1 \<Longrightarrow> tracked w query st1"
proof (induction items arbitrary: st)
  case Nil
  then show ?case by simp
next
  case (Cons item items)
  from Cons.prems(3) obtain st2 where a: "search_step w query item st = Inr st2"
    and b: "search_loop w query items st2 = Inr st1"
    by (auto split: sum.splits)
  have "tracked w query st2"
    using tracked_step [OF _ Cons.prems(2) a] Cons.prems(1) by simp
  then show ?case using Cons.IH b Cons.prems(1) by simp
qed

lemma search_all_topics_tracked:
  assumes "search_all_topics w query tr = Inr ((bm, ac), tr1)"
  shows "\<exists>bc. tracked w query (bm, bc, ac, tr1)"
proof -
  from assms obtain bc where
    "search_loop w query (NOTION_PAGES w) (None, PInt 0, [], tr) = Inr (bm, bc, ac, tr1)"
    by (auto simp: search_all_topics_def split: sum.splits)
  moreover have "tracked w query (None, PInt 0, [], tr)"
    by (simp add: tracked_def)
  ultimately have "tracked w query (bm, bc, ac, tr1)"
    using tracked_loop [of "NOTION_PAGES w" w query] by blast
  then show ?thesis by blast
qed

lemma ab_search:
  "search_all_topics ab_world query [] =
     Inr ((Some \<lparr>bm_topic = ''A'', bm_content = page ''About doc1'', bm_confidence = JNum (PInt 75)\<rparr>,
           [(''A'', page ''About doc1''), (''B'', page ''About doc2'')]),
          [NotionList ''doc1'', GroqCreate (1 / 10) (relevance_prompt query ''About doc1''),
           NotionList ''doc2'', GroqCreate (1 / 10) (relevance_prompt query ''About doc2'')])"
  by (simp add: search_all_topics_def search_step_def ab_world_def fetch_page_content_def
      check_content_relevance_eq relevance_reply_def relevant_above_def verdict_def page_def
      extract_page_id_def num_gt_def Let_def)

text \<open>
  Claim C10. When the search over all topics returns a best match, its confidence is a
  number strictly greater than 0 (the best confidence starts at 0 and is replaced only by a
  strictly greater one, so a relevant verdict of confidence 0 is never tracked), and a
  verdict recorded in the trace for the content of that match had that confidence and a
  \<^verbatim>\<open>relevant\<close> that passes Python's truth test: never \<^verbatim>\<open>false\<close>, and \<^verbatim>\<open>true\<close> whenever
  it is a boolean.
\<close>

theorem search_all_topics_best_above_zero:
  "search_all_topics w query tr = Inr ((Some bm, all_contents), tr1) \<Longrightarrow>
   \<exists>x. bm_confidence bm = JNum x \<and> num_gt x (PInt 0) \<and>
     (\<exists>v r. scored w tr1 query (bm_content bm) v \<and>
        subscript v ''relevant'' = Inr r \<and> truthy r \<and> r \<noteq> JNum (PBool False) \<and>
        subscript v ''confidence'' = Inr (bm_confidence bm))"
proof -
  assume "search_all_topics w query tr = Inr ((Some bm, all_contents), tr1)"
  then obtain bc where "tracked w query (Some bm, bc, all_contents, tr1)"
    using search_all_topics_tracked by blast
  then obtain v r where c: "bm_confidence bm = JNum bc" "num_gt bc (PInt 0)"
    and s: "scored w tr1 query (bm_content bm) v"
    and r: "subscript v ''relevant'' = Inr r" "truthy r"
    and k: "subscript v ''confidence'' = Inr (JNum bc)"
    by (auto simp: tracked_def)
  have "r \<noteq> JNum (PBool False)"
    using r(2) by auto
  then show ?thesis using c s r k by auto
qed

theorem search_all_topics_best_above_zero_witness:
  "\<exists>bm all_contents tr1.
     search_all_topics ab_world ''help'' [] = Inr ((Some bm, all_contents), tr1) \<and>
     (\<exists>x. bm_confidence bm = JNum x \<and> num_gt x (PInt 0) \<and>
       (\<exists>v r. scored ab_world tr1 ''help'' (bm_content bm) v \<and>
          subscript v ''relevant'' = Inr r \<and> truthy r \<and> r \<noteq> JNum (PBool False) \<and>
          subscript v ''confidence'' = Inr (bm_confidence bm)))"
  using search_all_topics_best_above_zero [OF ab_search [of "''help''"]] ab_search [of "''help''"]
  by blast

text \<open>
  Claim C10 as stated fails where \<^verbatim>\<open>relevant\<close> is not a boolean: with every verdict
  carrying the string \<^verbatim>\<open>"false"\<close> as \<^verbatim>\<open>relevant\<close> and the confidence 90, the search returns
  a best match, though no verdict had \<^verbatim>\<open>relevant\<close> equal to \<^verbatim>\<open>true\<close>.
\<close>

theorem search_all_topics_non_boolean_relevant_counterexample:
  "search_all_topics
     (battery_world ''Keep it charged.''
        (JObj [(''relevant'', JStr ''false''), (''confidence'', JNum (PInt 90))])) ''help'' [] =
     Inr ((Some \<lparr>bm_topic = ''Battery'', bm_content = page ''Keep it charged.'',
                  bm_confidence = JNum (PInt 90)\<rparr>,
           [(''Battery'', page ''Keep it charged.''), (''Charger'', page ''Keep it charged.'')]),
          [NotionList ''id1'', GroqCreate (1 / 10) (relevance_prompt ''help'' ''Keep it charged.''),
           NotionList ''id2'', GroqCreate (1 / 10) (relevance_prompt ''help'' ''Keep it charged.'')])
   \<and> relevance_reply
       (battery_world ''Keep it charged.''
          (JObj [(''relevant'', JStr ''false''), (''confidence'', JNum (PInt 90))]))
       [NotionList ''id1''] (relevance_prompt ''help'' ''Keep it charged.'') =
       JObj [(''relevant'', JStr ''false''), (''confidence'', JNum (PInt 90))]
   \<and> relevance_reply
       (battery_world ''Keep it charged.''
          (JObj [(''relevant'', JStr ''false''), (''confidence'', JNum (PInt 90))]))
       [NotionList ''id1'', GroqCreate (1 / 10) (relevance_prompt ''help'' ''Keep it charged.''),
        NotionList ''id2'']
       (relevance_prompt ''help'' ''Keep it charged.'') =
       JObj [(''relevant'', JStr ''false''), (''confidence'', JNum (PInt 90))]
   \<and> subscript (JObj [(''relevant'', JStr ''false''), (''confidence'', JNum (PInt 90))])
        ''relevant'' \<noteq> Inr (JNum (PBool True))"
  by (simp add: search_all_topics_def search_step_def battery_world_def fetch_page_content_def
      check_content_relevance_eq relevance_reply_def relevant_above_def page_def
      extract_page_id_def num_gt_def Let_def)

lemma search_loop_keeps_or_exceeds:
  "search_loop w query items (Some m, bc, ac, tr) = Inr (bm1, bc1, ac1, tr1) \<Longrightarrow>
   (bm1 = Some m \<and> bc1 = bc) \<or> num_gt bc1 bc"
proof (induction items arbitrary: m bc ac tr)
  case Nil
  then show ?case by simp
next
  case (Cons item items)
  obtain topic url where it: "item = (topic, url)" by (cases item)
  from Cons.prems it obtain st2 where
    a: "search_step w query (topic, url) (Some m, bc, ac, tr) = Inr st2" and
    b: "search_loop w query items st2 = Inr (bm1, bc1, ac1, tr1)"
    by (auto split: sum.splits)
  from a show ?case
  proof (cases rule: search_step_cases)
    case (empty c)
    then show ?thesis using b Cons.IH by blast
  next
    case (rejected c)
    then show ?thesis using b Cons.IH by blast
  next
    case (accepted c r x)
    then have "(bm1 = Some \<lparr>bm_topic = topic, bm_content = c, bm_confidence = JNum x\<rparr> \<and> bc1 = x)
        \<or> num_gt bc1 x"
      using b Cons.IH by blast
    then show ?thesis using accepted(6) num_gt_trans by blast
  qed
qed

lemma search_loop_all_tied:
  assumes fetch: "\<forall>tr page_id. \<exists>c. notion_page w tr page_id = Inr c \<and> content_text c \<noteq> []"
    and tie: "\<forall>tr p. \<exists>r. subscript (relevance_reply w tr p) ''relevant'' = Inr r \<and> truthy r \<and>
        subscript (relevance_reply w tr p) ''confidence'' = Inr (JNum k)"
  shows "\<exists>ac1 tr1. search_loop w query items (Some m, k, ac, tr) = Inr (Some m, k, ac1, tr1)"
proof (induction items arbitrary: ac tr)
  case Nil
  then show ?case by simp
next
  case (Cons item items)
  obtain topic url where it: "item = (topic, url)" by (cases item)
  let ?id = "extract_page_id url"
  obtain c where c: "notion_page w tr ?id = Inr c" "content_text c \<noteq> []"
    using fetch by blast
  let ?p = "relevance_prompt query (take 1500 (content_text c))"
  have "relevant_above (relevance_reply w (tr @ [NotionList ?id]) ?p) k = Inr False"
    using tie num_gt_irrefl relevant_above_False_iff by blast
  then have "search_step w query (topic, url) (Some m, k, ac, tr) =
      Inr (Some m, k, AList.update topic c ac, tr @ [NotionList ?id, GroqCreate (1 / 10) ?p])"
    using search_step_rejected c by blast
  then show ?case using Cons.IH it by simp
qed

lemma search_all_topics_first_of_tied:
  assumes pages: "NOTION_PAGES w = (topic, url) # rest"
    and fetch: "\<forall>tr page_id. \<exists>c. notion_page w tr page_id = Inr c \<and> content_text c \<noteq> []"
    and tie: "\<forall>tr p. \<exists>r. subscript (relevance_reply w tr p) ''relevant'' = Inr r \<and> truthy r \<and>
        subscript (relevance_reply w tr p) ''confidence'' = Inr (JNum k)"
    and pos: "num_gt k (PInt 0)"
  shows "\<exists>c ac1 tr1. search_all_topics w query tr =
      Inr ((Some \<lparr>bm_topic = topic, bm_content = c, bm_confidence = JNum k\<rparr>, ac1), tr1)"
proof -
  let ?id = "extract_page_id url"
  obtain c where c: "notion_page w tr ?id = Inr c" "content_text c \<noteq> []"
    using fetch by blast
  let ?p = "relevance_prompt query (take 1500 (content_text c))"
  let ?m = "\<lparr>bm_topic = topic, bm_content = c, bm_confidence = JNum k\<rparr>"
  obtain r where r: "subscript (relevance_reply w (tr @ [NotionList ?id]) ?p) ''relevant'' = Inr r"
      "truthy r"
      "subscript (relevance_reply w (tr @ [NotionList ?id]) ?p) ''confidence'' = Inr (JNum k)"
    using tie by blast
  have first: "search_step w query (topic, url) (None, PInt 0, [], tr) =
      Inr (Some ?m, k, AList.update topic c [], tr @ [NotionList ?id, GroqCreate (1 / 10) ?p])"
    using search_step_accepted [OF c r pos] .
  obtain ac1 tr1 where "search_loop w query rest
      (Some ?m, k, AList.update topic c [], tr @ [NotionList ?id, GroqCreate (1 / 10) ?p]) =
      Inr (Some ?m, k, ac1, tr1)"
    using search_loop_all_tied [OF fetch tie] by blast
  then have "search_all_topics w query tr = Inr ((Some ?m, ac1), tr1)"
    using first pages by (simp add: search_all_topics_def)
  then show ?thesis by blast
qed

lemma keyword_search_outcome:
  "keyword_search w query topics tr = Inr (Some out, tr1) \<Longrightarrow> \<exists>t c v. out = KeywordMatch t c v"
proof (induction topics arbitrary: tr)
  case Nil
  then show ?case by simp
next
  case (Cons topic topics)
  show ?case
  proof (cases "keyword_step w query topic tr")
    case (Inl e)
    then show ?thesis using Cons.prems by simp
  next
    case (Inr res)
    obtain o1 tr2 where res: "res = (o1, tr2)" by (cases res)
    show ?thesis
    proof (cases o1)
      case None
      then show ?thesis using Cons.prems Cons.IH Inr res by simp
    next
      case (Some m)
      then have "out = m" using Cons.prems Inr res by simp
      moreover have "\<exists>t c v. m = KeywordMatch t c v"
        using Inr res Some
        by (auto simp: keyword_step_def Let_def split: option.splits sum.splits if_splits bool.splits prod.splits)
      ultimately show ?thesis by simp
    qed
  qed
qed

lemma resolve_semantic:
  "resolve w query = Inr (SemanticMatch bm, tr1) \<Longrightarrow>
   \<exists>tr ac. search_all_topics w query tr = Inr ((Some bm, ac), tr1) \<and>
     py_gt (bm_confidence bm) (PInt 50) = Inr True"
proof -
  assume a: "resolve w query = Inr (SemanticMatch bm, tr1)"
  show ?thesis
  proof (cases "keyword_search w query (find_relevant_topics w query) []")
    case (Inl e)
    then show ?thesis using a by (simp add: resolve_def)
  next
    case (Inr res)
    obtain o1 tr where res: "res = (o1, tr)" by (cases res)
    show ?thesis
    proof (cases o1)
      case (Some m)
      then have "m = SemanticMatch bm" using a Inr res by (simp add: resolve_def)
      then show ?thesis using keyword_search_outcome Inr res Some by blast
    next
      case None
      then have "semantic_search w query tr = Inr (SemanticMatch bm, tr1)"
        using a Inr res by (simp add: resolve_def)
      then show ?thesis
        by (auto simp: semantic_search_def split: sum.splits option.splits bool.splits prod.splits)
    qed
  qed
qed

lemma ab_no_candidates: "find_relevant_topics ab_world ''help'' = []"
  by code_simp

lemma ab_resolve:
  "resolve ab_world ''help'' =
     Inr (SemanticMatch \<lparr>bm_topic = ''A'', bm_content = page ''About doc1'',
                         bm_confidence = JNum (PInt 75)\<rparr>,
          [NotionList ''doc1'', GroqCreate (1 / 10) (relevance_prompt ''help'' ''About doc1''),
           NotionList ''doc2'', GroqCreate (1 / 10) (relevance_prompt ''help'' ''About doc2'')])"
  by (simp add: resolve_def ab_no_candidates semantic_search_def ab_search num_gt_def)

lemma ab_fetch: "\<forall>tr page_id. \<exists>c. notion_page ab_world tr page_id = Inr c \<and> content_text c \<noteq> []"
  by (simp add: ab_world_def page_def)

lemma ab_tie:
  "\<forall>tr p. \<exists>r. subscript (relevance_reply ab_world tr p) ''relevant'' = Inr r \<and> truthy r \<and>
      subscript (relevance_reply ab_world tr p) ''confidence'' = Inr (JNum (PInt 75))"
  by (simp add: ab_world_def relevance_reply_def verdict_def)

lemma relevant_with_unique: "relevant_with v x \<Longrightarrow> relevant_with v y \<Longrightarrow> x = y"
  by (simp add: relevant_with_def)

lemma relevant_with_iff:
  "relevant_with v y \<longleftrightarrow>
     (\<exists>r. subscript v ''relevant'' = Inr r \<and> truthy r) \<and> subscript v ''confidence'' = Inr (JNum y)"
  by (auto simp: relevant_with_def split: sum.splits)

lemma relevant_above_True_with:
  "relevant_above v b = Inr True \<longleftrightarrow> (\<exists>y. relevant_with v y \<and> num_gt y b)"
  unfolding relevant_above_True_iff relevant_with_iff by blast

lemma relevant_above_False_with:
  assumes "relevant_above v b = Inr False" and "relevant_with v y"
  shows "\<not> num_gt y b"
proof
  assume "num_gt y b"
  then have "relevant_above v b = Inr True"
    using assms(2) relevant_above_True_with by blast
  then show False using assms(1) by simp
qed

lemma float_gt_between:
  "float_gt x b \<Longrightarrow> \<not> float_gt y b \<Longrightarrow> float_gt x y \<or> y = NaN"
  by (cases x; cases y; cases b) auto

lemma num_gt_between:
  "num_gt x b \<Longrightarrow> \<not> num_gt y b \<Longrightarrow> num_gt x y \<or> to_float y = NaN"
  unfolding num_gt_def by (rule float_gt_between)

lemma search_loop_earliest_best:
  "search_loop w query items (bm, bc, ac, tr) = Inr (bm1, bc1, ac1, tr1) \<Longrightarrow>
   (bm1 = bm \<and> bc1 = bc \<and>
      (\<forall>ob \<in> set (observations w query items tr).
         \<forall>y. relevant_with (ob_verdict ob) y \<longrightarrow> \<not> num_gt y bc))
   \<or> (\<exists>pre ob post x.
         observations w query items tr = pre @ ob # post \<and>
         relevant_with (ob_verdict ob) x \<and> num_gt x bc \<and> bc1 = x \<and>
         bm1 = Some \<lparr>bm_topic = ob_topic ob, bm_content = ob_content ob, bm_confidence = JNum x\<rparr> \<and>
         (\<forall>p \<in> set pre. \<forall>y. relevant_with (ob_verdict p) y \<longrightarrow> num_gt x y \<or> to_float y = NaN) \<and>
         (\<forall>p \<in> set post. \<forall>y. relevant_with (ob_verdict p) y \<longrightarrow> \<not> num_gt y x))"
proof (induction items arbitrary: bm bc ac tr)
  case Nil
  then show ?case by simp
next
  case (Cons item items)
  obtain topic url where it: "item = (topic, url)" by (cases item)
  let ?id = "extract_page_id url"
  from Cons.prems it obtain st2 where
    a: "search_step w query (topic, url) (bm, bc, ac, tr) = Inr st2" and
    b: "search_loop w query items st2 = Inr (bm1, bc1, ac1, tr1)"
    by (auto split: sum.splits)
  from a show ?case
  proof (cases rule: search_step_cases)
    case (empty c)
    then have o: "observations w query (item # items) tr =
        observations w query items (tr @ [NotionList ?id])"
      using it by simp
    show ?thesis
      using Cons.IH [of bm bc ac "tr @ [NotionList ?id]"] b empty(3) unfolding o by simp
  next
    case (rejected c)
    let ?p = "relevance_prompt query (take 1500 (content_text c))"
    let ?v = "relevance_reply w (tr @ [NotionList ?id]) ?p"
    let ?o = "\<lparr>ob_topic = topic, ob_content = c, ob_verdict = ?v\<rparr>"
    let ?tr2 = "tr @ [NotionList ?id, GroqCreate (1 / 10) ?p]"
    let ?rest = "observations w query items ?tr2"
    have o: "observations w query (item # items) tr = ?o # ?rest"
      using it rejected(1,2) by simp
    have head: "\<forall>y. relevant_with (ob_verdict ?o) y \<longrightarrow> \<not> num_gt y bc"
      using relevant_above_False_with [OF rejected(3)] by simp
    from Cons.IH [of bm bc "AList.update topic c ac" ?tr2] b rejected(4)
    consider
      (kept) "bm1 = bm" "bc1 = bc"
        "\<forall>ob \<in> set ?rest. \<forall>y. relevant_with (ob_verdict ob) y \<longrightarrow> \<not> num_gt y bc"
    | (won) pre ob post x where "?rest = pre @ ob # post"
        "relevant_with (ob_verdict ob) x" "num_gt x bc" "bc1 = x"
        "bm1 = Some \<lparr>bm_topic = ob_topic ob, bm_content = ob_content ob, bm_confidence = JNum x\<rparr>"
        "\<forall>p \<in> set pre. \<forall>y. relevant_with (ob_verdict p) y \<longrightarrow> num_gt x y \<or> to_float y = NaN"
        "\<forall>p \<in> set post. \<forall>y. relevant_with (ob_verdict p) y \<longrightarrow> \<not> num_gt y x"
      by auto
    then show ?thesis
    proof cases
      case kept
      then show ?thesis using head unfolding o by simp
    next
      case won
      have "\<forall>y. relevant_with (ob_verdict ?o) y \<longrightarrow> num_gt x y \<or> to_float y = NaN"
        using head won(3) num_gt_between by blast
      then have pre: "\<forall>p \<in> set (?o # pre). \<forall>y. relevant_with (ob_verdict p) y \<longrightarrow>
          num_gt x y \<or> to_float y = NaN"
        using won(6) by simp
      have "observations w query (item # items) tr = (?o # pre) @ ob # post"
        unfolding o using won(1) by simp
      then have "observations w query (item # items) tr = (?o # pre) @ ob # post \<and>
         relevant_with (ob_verdict ob) x \<and> num_gt x bc \<and> bc1 = x \<and>
         bm1 = Some \<lparr>bm_topic = ob_topic ob, bm_content = ob_content ob, bm_confidence = JNum x\<rparr> \<and>
         (\<forall>p \<in> set (?o # pre). \<forall>y. relevant_with (ob_verdict p) y \<longrightarrow>
            num_gt x y \<or> to_float y = NaN) \<and>
         (\<forall>p \<in> set post. \<forall>y. relevant_with (ob_verdict p) y \<longrightarrow> \<not> num_gt y x)"
        using won(2,3,4,5,7) pre by simp
      then show ?thesis
        by (intro disjI2 exI [where x = "?o # pre"] exI [where x = ob] exI [where x = post]
            exI [where x = x])
    qed
  next
    case (accepted c r x0)
    let ?p = "relevance_prompt query (take 1500 (content_text c))"
    let ?v = "relevance_reply w (tr @ [NotionList ?id]) ?p"
    let ?o = "\<lparr>ob_topic = topic, ob_content = c, ob_verdict = ?v\<rparr>"
    let ?tr2 = "tr @ [NotionList ?id, GroqCreate (1 / 10) ?p]"
    let ?rest = "observations w query items ?tr2"
    let ?m = "\<lparr>bm_topic = topic, bm_content = c, bm_confidence = JNum x0\<rparr>"
    have o: "observations w query (item # items) tr = ?o # ?rest"
      using it accepted(1,2) by simp
    have rw: "relevant_with (ob_verdict ?o) x0"
      using accepted(3,4,5) relevant_with_iff by auto
    from Cons.IH [of "Some ?m" x0 "AList.update topic c ac" ?tr2] b accepted(7)
    consider
      (kept) "bm1 = Some ?m" "bc1 = x0"
        "\<forall>ob \<in> set ?rest. \<forall>y. relevant_with (ob_verdict ob) y \<longrightarrow> \<not> num_gt y x0"
    | (won) pre ob post x where "?rest = pre @ ob # post"
        "relevant_with (ob_verdict ob) x" "num_gt x x0" "bc1 = x"
        "bm1 = Some \<lparr>bm_topic = ob_topic ob, bm_content = ob_content ob, bm_confidence = JNum x\<rparr>"
        "\<forall>p \<in> set pre. \<forall>y. relevant_with (ob_verdict p) y \<longrightarrow> num_gt x y \<or> to_float y = NaN"
        "\<forall>p \<in> set post. \<forall>y. relevant_with (ob_verdict p) y \<longrightarrow> \<not> num_gt y x"
      by auto
    then show ?thesis
    proof cases
      case kept
      have "observations w query (item # items) tr = [] @ ?o # ?rest"
        unfolding o by simp
      moreover have "bm1 = Some \<lparr>bm_topic = ob_topic ?o, bm_content = ob_content ?o,
          bm_confidence = JNum x0\<rparr>"
        using kept(1) by simp
      ultimately have "observations w query (item # items) tr = [] @ ?o # ?rest \<and>
         relevant_with (ob_verdict ?o) x0 \<and> num_gt x0 bc \<and> bc1 = x0 \<and>
         bm1 = Some \<lparr>bm_topic = ob_topic ?o, bm_content = ob_content ?o,
                       bm_confidence = JNum x0\<rparr> \<and>
         (\<forall>p \<in> set []. \<forall>y. relevant_with (ob_verdict p) y \<longrightarrow>
            num_gt x0 y \<or> to_float y = NaN) \<and>
         (\<forall>p \<in> set ?rest. \<forall>y. relevant_with (ob_verdict p) y \<longrightarrow> \<not> num_gt y x0)"
        using rw accepted(6) kept(2,3) by simp
      then show ?thesis
        by (intro disjI2 exI [where x = "[]"] exI [where x = ?o] exI [where x = ?rest]
            exI [where x = x0])
    next
      case won
      have "\<forall>y. relevant_with (ob_verdict ?o) y \<longrightarrow> num_gt x y \<or> to_float y = NaN"
        using rw won(3) relevant_with_unique by blast
      then have pre: "\<forall>p \<in> set (?o # pre). \<forall>y. relevant_with (ob_verdict p) y \<longrightarrow>
          num_gt x y \<or> to_float y = NaN"
        using won(6) by simp
      have gt: "num_gt x bc"
        using won(3) accepted(6) num_gt_trans by blast
      have "observations w query (item # items) tr = (?o # pre) @ ob # post"
        unfolding o using won(1) by simp
      then have "observations w query (item # items) tr = (?o # pre) @ ob # post \<and>
         relevant_with (ob_verdict ob) x \<and> num_gt x bc \<and> bc1 = x \<and>
         bm1 = Some \<lparr>bm_topic = ob_topic ob, bm_content = ob_content ob, bm_confidence = JNum x\<rparr> \<and>
         (\<forall>p \<in> set (?o # pre). \<forall>y. relevant_with (ob_verdict p) y \<longrightarrow>
            num_gt x y \<or> to_float y = NaN) \<and>
         (\<forall>p \<in> set post. \<forall>y. relevant_with (ob_verdict p) y \<longrightarrow> \<not> num_gt y x)"
        using won(2,4,5,7) pre gt by simp
      then show ?thesis
        by (intro disjI2 exI [where x = "?o # pre"] exI [where x = ob] exI [where x = post]
            exI [where x = x])
    qed
  qed
qed

lemma search_loop_extends:
  "search_loop w query items (bm, bc, ac, tr) = Inr (bm1, bc1, ac1, tr1) \<Longrightarrow> \<exists>ext. tr1 = tr @ ext"
proof (induction items arbitrary: bm bc ac tr)
  case Nil
  then show ?case by simp
next
  case (Cons item items)
  obtain topic url where it: "item = (topic, url)" by (cases item)
  from Cons.prems it obtain st2 where
    a: "search_step w query (topic, url) (bm, bc, ac, tr) = Inr st2" and
    b: "search_loop w query items st2 = Inr (bm1, bc1, ac1, tr1)"
    by (auto split: sum.splits)
  obtain bm2 bc2 ac2 tr2 where st2: "st2 = (bm2, bc2, ac2, tr2)" by (cases st2)
  have "\<exists>e. tr2 = tr @ e"
    using a st2 by (cases rule: search_step_cases) auto
  moreover have "\<exists>e. tr1 = tr2 @ e"
    using Cons.IH b st2 by blast
  ultimately show ?case by auto
qed

lemma observations_recorded:
  "search_loop w query items (bm, bc, ac, tr) = Inr (bm1, bc1, ac1, tr1) \<Longrightarrow>
   set items \<subseteq> set (NOTION_PAGES w) \<Longrightarrow>
   \<forall>ob \<in> set (observations w query items tr).
     fetched w tr1 (ob_topic ob) (ob_content ob) \<and>
     scored w tr1 query (ob_content ob) (ob_verdict ob)"
proof (induction items arbitrary: bm bc ac tr)
  case Nil
  then show ?case by simp
next
  case (Cons item items)
  obtain topic url where it: "item = (topic, url)" by (cases item)
  let ?id = "extract_page_id url"
  from Cons.prems(1) it obtain st2 where
    a: "search_step w query (topic, url) (bm, bc, ac, tr) = Inr st2" and
    b: "search_loop w query items st2 = Inr (bm1, bc1, ac1, tr1)"
    by (auto split: sum.splits)
  have sub: "set items \<subseteq> set (NOTION_PAGES w)" and mem: "(topic, url) \<in> set (NOTION_PAGES w)"
    using Cons.prems(2) it by auto
  have scoredcase: ?case
    if c: "notion_page w tr ?id = Inr c" "content_text c \<noteq> []"
      and st: "st2 = (bm2, bc2, ac2, tr @ [NotionList ?id,
          GroqCreate (1 / 10) (relevance_prompt query (take 1500 (content_text c)))])"
    for c bm2 bc2 ac2
  proof -
    let ?p = "relevance_prompt query (take 1500 (content_text c))"
    let ?v = "relevance_reply w (tr @ [NotionList ?id]) ?p"
    let ?o = "\<lparr>ob_topic = topic, ob_content = c, ob_verdict = ?v\<rparr>"
    let ?tr2 = "tr @ [NotionList ?id, GroqCreate (1 / 10) ?p]"
    have o: "observations w query (item # items) tr = ?o # observations w query items ?tr2"
      using it c by simp
    have l: "search_loop w query items (bm2, bc2, ac2, ?tr2) = Inr (bm1, bc1, ac1, tr1)"
      using b st by simp
    obtain ext where ext: "tr1 = ?tr2 @ ext"
      using search_loop_extends [OF l] by blast
    have "fetched w (tr @ NotionList ?id # [GroqCreate (1 / 10) ?p]) topic c"
      using fetched_here mem c(1) by blast
    then have f: "fetched w tr1 topic c"
      using fetched_append [of w "tr @ NotionList ?id # [GroqCreate (1 / 10) ?p]" topic c ext] ext
      by simp
    have "scored w ((tr @ [NotionList ?id]) @ GroqCreate (1 / 10) ?p # []) query c ?v"
      by (rule scored_here)
    then have s: "scored w tr1 query c ?v"
      using scored_append [of w "(tr @ [NotionList ?id]) @ GroqCreate (1 / 10) ?p # []" query c ?v ext]
        ext by simp
    show ?thesis
      unfolding o using f s Cons.IH [OF l sub] by simp
  qed
  from a show ?case
  proof (cases rule: search_step_cases)
    case (empty c)
    then have o: "observations w query (item # items) tr =
        observations w query items (tr @ [NotionList ?id])"
      using it by simp
    show ?thesis
      unfolding o using Cons.IH [of bm bc ac "tr @ [NotionList ?id]"] b empty(3) sub by simp
  next
    case (rejected c)
    then show ?thesis using scoredcase by blast
  next
    case (accepted c r x)
    then show ?thesis using scoredcase by blast
  qed
qed

lemma xyz_search:
  "search_all_topics xyz_world query [] =
     Inr ((Some \<lparr>bm_topic = ''Y'', bm_content = page ''About doc2'', bm_confidence = JNum (PInt 90)\<rparr>,
           [(''X'', page ''About doc1''), (''Y'', page ''About doc2''), (''Z'', page ''About doc3'')]),
          [NotionList ''doc1'', GroqCreate (1 / 10) (relevance_prompt query ''About doc1''),
           NotionList ''doc2'', GroqCreate (1 / 10) (relevance_prompt query ''About doc2''),
           NotionList ''doc3'', GroqCreate (1 / 10) (relevance_prompt query ''About doc3'')])"
  by (simp add: search_all_topics_def search_step_def xyz_world_def fetch_page_content_def
      check_content_relevance_eq relevance_reply_def relevant_above_def verdict_def page_def
      extract_page_id_def num_gt_def Let_def)

lemma xyz_observations:
  "observations xyz_world query (NOTION_PAGES xyz_world) [] =
     [\<lparr>ob_topic = ''X'', ob_content = page ''About doc1'', ob_verdict = verdict True 30\<rparr>,
      \<lparr>ob_topic = ''Y'', ob_content = page ''About doc2'', ob_verdict = verdict True 90\<rparr>,
      \<lparr>ob_topic = ''Z'', ob_content = page ''About doc3'', ob_verdict = verdict True 90\<rparr>]"
  by (simp add: xyz_world_def relevance_reply_def page_def extract_page_id_def)

lemma mixed_search:
  "search_all_topics mixed_world query [] =
     Inr ((Some \<lparr>bm_topic = ''A'', bm_content = page ''About doc1'', bm_confidence = JNum (PInt 90)\<rparr>,
           [(''A'', page ''About doc1''), (''B'', page ''About doc2'')]),
          [NotionList ''doc1'', GroqCreate (1 / 10) (relevance_prompt query ''About doc1''),
           NotionList ''doc2'', GroqCreate (1 / 10) (relevance_prompt query ''About doc2'')])"
  by (simp add: search_all_topics_def search_step_def mixed_world_def fetch_page_content_def
      check_content_relevance_eq relevance_reply_def relevant_above_def verdict_def page_def
      extract_page_id_def num_gt_def Let_def)

lemma mixed_no_candidates: "find_relevant_topics mixed_world ''help'' = []"
  by code_simp

text \<open>
  Claim C1. The search over all topics tracks the single best verdict among the relevant
  ones by strictly greater confidence. Of the topics the loop got to score, in catalog
  order (each one fetched and scored in the trace), either none is relevant with a
  confidence above 0 and there is no best match, or the best match is one of them, relevant
  with a confidence above 0, such that every relevant verdict before it has a strictly
  smaller confidence (or a NaN one) and no relevant verdict after it has a strictly greater
  one: on equal confidence the earliest wins, also after a lower earlier score. A semantic
  match is the best match of such a search. Where every topic has text and every verdict is
  relevant with one and the same confidence above 0, the first topic of the catalog is the
  best match and the topic of any semantic match (as for the catalog of A and B both scored
  75). A verdict counts as relevant when its \<^verbatim>\<open>relevant\<close> passes Python's truth test.
\<close>

theorem search_all_topics_tracks_earliest_best:
  "(search_all_topics w query tr = Inr ((best, all_contents), tr1) \<longrightarrow>
      (\<forall>ob \<in> set (observations w query (NOTION_PAGES w) tr).
         fetched w tr1 (ob_topic ob) (ob_content ob) \<and>
         scored w tr1 query (ob_content ob) (ob_verdict ob))
      \<and> ((best = None \<and>
           (\<forall>ob \<in> set (observations w query (NOTION_PAGES w) tr).
              \<forall>y. relevant_with (ob_verdict ob) y \<longrightarrow> \<not> num_gt y (PInt 0)))
         \<or> (\<exists>pre ob post x.
               observations w query (NOTION_PAGES w) tr = pre @ ob # post \<and>
               relevant_with (ob_verdict ob) x \<and> num_gt x (PInt 0) \<and>
               best = Some \<lparr>bm_topic = ob_topic ob, bm_content = ob_content ob,
                             bm_confidence = JNum x\<rparr> \<and>
               (\<forall>p \<in> set pre. \<forall>y. relevant_with (ob_verdict p) y \<longrightarrow>
                  num_gt x y \<or> to_float y = NaN) \<and>
               (\<forall>p \<in> set post. \<forall>y. relevant_with (ob_verdict p) y \<longrightarrow> \<not> num_gt y x))))
   \<and> (resolve w query = Inr (SemanticMatch bm, tr3) \<longrightarrow>
        (\<exists>tr0 ac. search_all_topics w query tr0 = Inr ((Some bm, ac), tr3)))
   \<and> (NOTION_PAGES w = (topic, url) # rest \<and>
       (\<forall>tr page_id. \<exists>c. notion_page w tr page_id = Inr c \<and> content_text c \<noteq> []) \<and>
       (\<forall>tr p. \<exists>r. subscript (relevance_reply w tr p) ''relevant'' = Inr r \<and> truthy r \<and>
          subscript (relevance_reply w tr p) ''confidence'' = Inr (JNum k)) \<and>
       num_gt k (PInt 0)
      \<longrightarrow> (\<exists>c ac2 tr2. search_all_topics w query tr =
             Inr ((Some \<lparr>bm_topic = topic, bm_content = c, bm_confidence = JNum k\<rparr>, ac2), tr2))
          \<and> (\<forall>bm tr3. resolve w query = Inr (SemanticMatch bm, tr3) \<longrightarrow> bm_topic bm = topic))"
proof -
  have best: "(\<forall>ob \<in> set (observations w query (NOTION_PAGES w) tr).
         fetched w tr1 (ob_topic ob) (ob_content ob) \<and>
         scored w tr1 query (ob_content ob) (ob_verdict ob))
      \<and> ((best = None \<and>
           (\<forall>ob \<in> set (observations w query (NOTION_PAGES w) tr).
              \<forall>y. relevant_with (ob_verdict ob) y \<longrightarrow> \<not> num_gt y (PInt 0)))
         \<or> (\<exists>pre ob post x.
               observations w query (NOTION_PAGES w) tr = pre @ ob # post \<and>
               relevant_with (ob_verdict ob) x \<and> num_gt x (PInt 0) \<and>
               best = Some \<lparr>bm_topic = ob_topic ob, bm_content = ob_content ob,
                             bm_confidence = JNum x\<rparr> \<and>
               (\<forall>p \<in> set pre. \<forall>y. relevant_with (ob_verdict p) y \<longrightarrow>
                  num_gt x y \<or> to_float y = NaN) \<and>
               (\<forall>p \<in> set post. \<forall>y. relevant_with (ob_verdict p) y \<longrightarrow> \<not> num_gt y x)))"
    if s: "search_all_topics w query tr = Inr ((best, all_contents), tr1)"
  proof -
    from s obtain bc where
      l: "search_loop w query (NOTION_PAGES w) (None, PInt 0, [], tr) =
          Inr (best, bc, all_contents, tr1)"
      by (auto simp: search_all_topics_def split: sum.splits)
    have rec: "\<forall>ob \<in> set (observations w query (NOTION_PAGES w) tr).
         fetched w tr1 (ob_topic ob) (ob_content ob) \<and>
         scored w tr1 query (ob_content ob) (ob_verdict ob)"
      using observations_recorded [OF l] by simp
    show ?thesis
      using search_loop_earliest_best [OF l] rec by blast
  qed
  have sem: "\<exists>tr0 ac. search_all_topics w query tr0 = Inr ((Some bm, ac), tr3)"
    if "resolve w query = Inr (SemanticMatch bm, tr3)"
    using resolve_semantic [OF that] by blast
  have tied: "(\<exists>c ac2 tr2. search_all_topics w query tr =
             Inr ((Some \<lparr>bm_topic = topic, bm_content = c, bm_confidence = JNum k\<rparr>, ac2), tr2))
          \<and> (\<forall>bm tr3. resolve w query = Inr (SemanticMatch bm, tr3) \<longrightarrow> bm_topic bm = topic)"
    if pages: "NOTION_PAGES w = (topic, url) # rest"
      and fetch: "\<forall>tr page_id. \<exists>c. notion_page w tr page_id = Inr c \<and> content_text c \<noteq> []"
      and tie: "\<forall>tr p. \<exists>r. subscript (relevance_reply w tr p) ''relevant'' = Inr r \<and> truthy r \<and>
          subscript (relevance_reply w tr p) ''confidence'' = Inr (JNum k)"
      and pos: "num_gt k (PInt 0)"
  proof
    show "\<exists>c ac2 tr2. search_all_topics w query tr =
             Inr ((Some \<lparr>bm_topic = topic, bm_content = c, bm_confidence = JNum k\<rparr>, ac2), tr2)"
      by (rule search_all_topics_first_of_tied [OF pages fetch tie pos])
    show "\<forall>bm tr3. resolve w query = Inr (SemanticMatch bm, tr3) \<longrightarrow> bm_topic bm = topic"
    proof (intro allI impI)
      fix bm tr3
      assume "resolve w query = Inr (SemanticMatch bm, tr3)"
      then obtain tr0 ac0 where s: "search_all_topics w query tr0 = Inr ((Some bm, ac0), tr3)"
        using resolve_semantic by blast
      obtain c ac2 tr2 where "search_all_topics w query tr0 =
          Inr ((Some \<lparr>bm_topic = topic, bm_content = c, bm_confidence = JNum k\<rparr>, ac2), tr2)"
        using search_all_topics_first_of_tied [OF pages fetch tie pos] by blast
      with s show "bm_topic bm = topic" by auto
    qed
  qed
  show ?thesis
    apply (intro conjI impI)
    subgoal using best by blast
    subgoal using best by blast
    subgoal using sem by blast
    subgoal using tied by blast
    subgoal using tied by blast
    done
qed

theorem search_all_topics_tracks_earliest_best_witness:
  "search_all_topics xyz_world ''help'' [] =
     Inr ((Some \<lparr>bm_topic = ''Y'', bm_content = page ''About doc2'', bm_confidence = JNum (PInt 90)\<rparr>,
           [(''X'', page ''About doc1''), (''Y'', page ''About doc2''), (''Z'', page ''About doc3'')]),
          [NotionList ''doc1'', GroqCreate (1 / 10) (relevance_prompt ''help'' ''About doc1''),
           NotionList ''doc2'', GroqCreate (1 / 10) (relevance_prompt ''help'' ''About doc2''),
           NotionList ''doc3'', GroqCreate (1 / 10) (relevance_prompt ''help'' ''About doc3'')])
   \<and> map ob_topic (observations xyz_world ''help'' (NOTION_PAGES xyz_world) []) = [''X'', ''Y'', ''Z'']
   \<and> (\<exists>pre ob post.
         observations xyz_world ''help'' (NOTION_PAGES xyz_world) [] = pre @ ob # post \<and>
         ob_topic ob = ''Y'' \<and> relevant_with (ob_verdict ob) (PInt 90) \<and>
         (\<forall>p \<in> set pre. \<forall>y. relevant_with (ob_verdict p) y \<longrightarrow>
            num_gt (PInt 90) y \<or> to_float y = NaN) \<and>
         (\<forall>p \<in> set post. \<forall>y. relevant_with (ob_verdict p) y \<longrightarrow> \<not> num_gt y (PInt 90)))
   \<and> NOTION_PAGES ab_world = (''A'', ''x-doc1'') # [(''B'', ''x-doc2'')]
   \<and> num_gt (PInt 75) (PInt 0)
   \<and> (\<exists>bm tr3. resolve ab_world ''help'' = Inr (SemanticMatch bm, tr3) \<and> bm_topic bm = ''A'')"
proof -
  let ?best = "Some \<lparr>bm_topic = ''Y'', bm_content = page ''About doc2'', bm_confidence = JNum (PInt 90)\<rparr>"
  note x = search_all_topics_tracks_earliest_best [where w = xyz_world and query = "''help''" and tr = "[]" and best = ?best]
  have "(?best = None \<and>
           (\<forall>ob \<in> set (observations xyz_world ''help'' (NOTION_PAGES xyz_world) []).
              \<forall>y. relevant_with (ob_verdict ob) y \<longrightarrow> \<not> num_gt y (PInt 0)))
         \<or> (\<exists>pre ob post x.
               observations xyz_world ''help'' (NOTION_PAGES xyz_world) [] = pre @ ob # post \<and>
               relevant_with (ob_verdict ob) x \<and> num_gt x (PInt 0) \<and>
               ?best = Some \<lparr>bm_topic = ob_topic ob, bm_content = ob_content ob,
                             bm_confidence = JNum x\<rparr> \<and>
               (\<forall>p \<in> set pre. \<forall>y. relevant_with (ob_verdict p) y \<longrightarrow>
                  num_gt x y \<or> to_float y = NaN) \<and>
               (\<forall>p \<in> set post. \<forall>y. relevant_with (ob_verdict p) y \<longrightarrow> \<not> num_gt y x))"
    using x xyz_search [of "''help''"] by blast
  then obtain pre ob post x where
    d: "observations xyz_world ''help'' (NOTION_PAGES xyz_world) [] = pre @ ob # post"
    and r: "relevant_with (ob_verdict ob) x"
    and b: "?best = Some \<lparr>bm_topic = ob_topic ob, bm_content = ob_content ob,
                             bm_confidence = JNum x\<rparr>"
    and e: "\<forall>p \<in> set pre. \<forall>y. relevant_with (ob_verdict p) y \<longrightarrow> num_gt x y \<or> to_float y = NaN"
    and l: "\<forall>p \<in> set post. \<forall>y. relevant_with (ob_verdict p) y \<longrightarrow> \<not> num_gt y x"
    by auto
  from b have "ob_topic ob = ''Y''" "x = PInt 90" by simp_all
  then have y: "\<exists>pre ob post.
         observations xyz_world ''help'' (NOTION_PAGES xyz_world) [] = pre @ ob # post \<and>
         ob_topic ob = ''Y'' \<and> relevant_with (ob_verdict ob) (PInt 90) \<and>
         (\<forall>p \<in> set pre. \<forall>y. relevant_with (ob_verdict p) y \<longrightarrow>
            num_gt (PInt 90) y \<or> to_float y = NaN) \<and>
         (\<forall>p \<in> set post. \<forall>y. relevant_with (ob_verdict p) y \<longrightarrow> \<not> num_gt y (PInt 90))"
    using d r e l by blast
  have p: "NOTION_PAGES ab_world = (''A'', ''x-doc1'') # [(''B'', ''x-doc2'')]"
    by (simp add: ab_world_def)
  have k: "num_gt (PInt 75) (PInt 0)"
    by (simp add: num_gt_def)
  note t = search_all_topics_tracks_earliest_best [where w = ab_world and query = "''help''" and topic = "''A''"
      and url = "''x-doc1''" and rest = "[(''B'', ''x-doc2'')]" and k = "PInt 75"]
  have "\<forall>bm tr3. resolve ab_world ''help'' = Inr (SemanticMatch bm, tr3) \<longrightarrow> bm_topic bm = ''A''"
    using t p k ab_fetch ab_tie by blast
  then have a: "\<exists>bm tr3. resolve ab_world ''help'' = Inr (SemanticMatch bm, tr3) \<and> bm_topic bm = ''A''"
    using ab_resolve by blast
  have o: "map ob_topic (observations xyz_world ''help'' (NOTION_PAGES xyz_world) []) = [''X'', ''Y'', ''Z'']"
    by (simp add: xyz_observations)
  show ?thesis using xyz_search [of "''help''"] o y p k a by simp
qed

text \<open>
  Claim C1 as stated fails where \<^verbatim>\<open>relevant\<close> is not a boolean: topic A is scored with
  the string \<^verbatim>\<open>"false"\<close> as \<^verbatim>\<open>relevant\<close> and confidence 90, topic B with \<^verbatim>\<open>relevant\<close>
  \<^verbatim>\<open>true\<close> and confidence 80. The only verdict with \<^verbatim>\<open>relevant\<close> equal to \<^verbatim>\<open>true\<close> is
  B's, yet the semantic match returned is A at 90.
\<close>

theorem resolve_non_boolean_relevant_counterexample:
  "subscript (relevance_reply mixed_world [NotionList ''doc1'']
       (relevance_prompt ''help'' ''About doc1'')) ''relevant'' = Inr (JStr ''false'')
   \<and> relevance_reply mixed_world
        [NotionList ''doc1'', GroqCreate (1 / 10) (relevance_prompt ''help'' ''About doc1''),
         NotionList ''doc2'']
        (relevance_prompt ''help'' ''About doc2'') =
       JObj [(''relevant'', JNum (PBool True)), (''confidence'', JNum (PInt 80)),
             (''reason'', JStr ''because'')]
   \<and> resolve mixed_world ''help'' =
       Inr (SemanticMatch \<lparr>bm_topic = ''A'', bm_content = page ''About doc1'',
                           bm_confidence = JNum (PInt 90)\<rparr>,
            [NotionList ''doc1'', GroqCreate (1 / 10) (relevance_prompt ''help'' ''About doc1''),
             NotionList ''doc2'', GroqCreate (1 / 10) (relevance_prompt ''help'' ''About doc2'')])"
proof -
  have a: "subscript (relevance_reply mixed_world [NotionList ''doc1'']
       (relevance_prompt ''help'' ''About doc1'')) ''relevant'' = Inr (JStr ''false'')"
    by (simp add: relevance_reply_def mixed_world_def)
  have b: "relevance_reply mixed_world
        [NotionList ''doc1'', GroqCreate (1 / 10) (relevance_prompt ''help'' ''About doc1''),
         NotionList ''doc2'']
        (relevance_prompt ''help'' ''About doc2'') =
       JObj [(''relevant'', JNum (PBool True)), (''confidence'', JNum (PInt 80)),
             (''reason'', JStr ''because'')]"
    by (simp add: relevance_reply_def mixed_world_def verdict_def)
  have c: "resolve mixed_world ''help'' =
       Inr (SemanticMatch \<lparr>bm_topic = ''A'', bm_content = page ''About doc1'',
                           bm_confidence = JNum (PInt 90)\<rparr>,
            [NotionList ''doc1'', GroqCreate (1 / 10) (relevance_prompt ''help'' ''About doc1''),
             NotionList ''doc2'', GroqCreate (1 / 10) (relevance_prompt ''help'' ''About doc2'')])"
    by (simp add: resolve_def mixed_no_candidates semantic_search_def mixed_search num_gt_def)
  show ?thesis using a b c by simp
qed

section \<open>Properties of the relevance check\<close>

lemma keyword_search_skip:
  assumes "map_of (NOTION_PAGES w) topic = Some url"
    and "notion_page w tr (extract_page_id url) = Inr c" and "content_text c \<noteq> []"
    and "relevant_above (relevance_reply w (tr @ [NotionList (extract_page_id url)])
           (relevance_prompt query (take 1500 (content_text c)))) (PInt 60) = Inr False"
  shows "keyword_search w query (topic # topics) tr =
     keyword_search w query topics
       (tr @ [NotionList (extract_page_id url),
              GroqCreate (1 / 10) (relevance_prompt query (take 1500 (content_text c)))])"
  using assms by (simp add: keyword_step_scored Let_def)

lemma search_loop_skip:
  assumes "notion_page w tr (extract_page_id url) = Inr c" and "content_text c \<noteq> []"
    and "relevant_above (relevance_reply w (tr @ [NotionList (extract_page_id url)])
           (relevance_prompt query (take 1500 (content_text c)))) bc = Inr False"
  shows "search_loop w query ((topic, url) # items) (bm, bc, ac, tr) =
     search_loop w query items (bm, bc, AList.update topic c ac,
       tr @ [NotionList (extract_page_id url),
             GroqCreate (1 / 10) (relevance_prompt query (take 1500 (content_text c)))])"
  using search_step_rejected [OF assms] by simp

text \<open>
  A reply that is JSON but lacks a field is not caught: the dict is returned as it is, and
  reading the missing field in the loop raises.
\<close>

lemma keyword_step_verdict_without_confidence:
  "keyword_step (battery_world ''Keep it charged.'' (JObj [(''relevant'', JNum (PBool True))]))
     ''How?'' ''Battery'' [] = Inl KeyError"
  by (simp add: keyword_step_def battery_world_def fetch_page_content_def page_def
      check_content_relevance_eq relevance_reply_def relevant_above_def)

text \<open>
  Claim C5. When the completion call raises, or \<^verbatim>\<open>json.loads\<close> raises on its reply, the
  relevance check returns the dict with \<^verbatim>\<open>relevant\<close> false, \<^verbatim>\<open>confidence\<close> 0 and the
  reason \<^verbatim>\<open>Failed to parse relevance\<close> (the function has no other way out: it returns a
  value for every reply), and both loops go on with the next candidate or topic, their best
  match unchanged. These are the failures the \<^verbatim>\<open>try\<close> statement covers; nothing is said
  here of a reply that is JSON but no verdict.
\<close>

theorem check_content_relevance_degrades:
  assumes "(\<exists>e. groq_create w tr (1 / 10) (relevance_prompt query (take 1500 (content_text c))) = Inl e)
     \<or> (\<exists>reply. groq_create w tr (1 / 10) (relevance_prompt query (take 1500 (content_text c))) = Inr reply
            \<and> json_loads w reply = None)"
  shows "check_content_relevance w query c tr =
      (JObj [(''relevant'', JNum (PBool False)), (''confidence'', JNum (PInt 0)),
             (''reason'', JStr ''Failed to parse relevance'')],
       tr @ [GroqCreate (1 / 10) (relevance_prompt query (take 1500 (content_text c)))])
    \<and> (\<forall>tr0 topic url topics.
         tr = tr0 @ [NotionList (extract_page_id url)] \<and>
         map_of (NOTION_PAGES w) topic = Some url \<and>
         notion_page w tr0 (extract_page_id url) = Inr c \<and> content_text c \<noteq> []
         \<longrightarrow> keyword_search w query (topic # topics) tr0 =
             keyword_search w query topics
               (tr @ [GroqCreate (1 / 10) (relevance_prompt query (take 1500 (content_text c)))]))
    \<and> (\<forall>tr0 topic url items bm bc ac.
         tr = tr0 @ [NotionList (extract_page_id url)] \<and>
         notion_page w tr0 (extract_page_id url) = Inr c \<and> content_text c \<noteq> []
         \<longrightarrow> search_loop w query ((topic, url) # items) (bm, bc, ac, tr0) =
             search_loop w query items (bm, bc, AList.update topic c ac,
               tr @ [GroqCreate (1 / 10) (relevance_prompt query (take 1500 (content_text c)))]))"
proof -
  let ?p = "relevance_prompt query (take 1500 (content_text c))"
  have f: "relevance_reply w tr ?p = failed_relevance"
    using assms by (rule relevance_reply_failed)
  have a: "check_content_relevance w query c tr =
      (JObj [(''relevant'', JNum (PBool False)), (''confidence'', JNum (PInt 0)),
             (''reason'', JStr ''Failed to parse relevance'')],
       tr @ [GroqCreate (1 / 10) ?p])"
    using f by (simp add: check_content_relevance_eq failed_relevance_def)
  have b: "keyword_search w query (topic # topics) tr0 =
             keyword_search w query topics (tr @ [GroqCreate (1 / 10) ?p])"
    if "tr = tr0 @ [NotionList (extract_page_id url)]"
      "map_of (NOTION_PAGES w) topic = Some url"
      "notion_page w tr0 (extract_page_id url) = Inr c" "content_text c \<noteq> []"
    for tr0 topic url topics
    using keyword_search_skip [OF that(2) that(3) that(4), of query topics] f that(1)
    by (simp add: relevant_above_failed)
  have c: "search_loop w query ((topic, url) # items) (bm, bc, ac, tr0) =
             search_loop w query items (bm, bc, AList.update topic c ac,
               tr @ [GroqCreate (1 / 10) ?p])"
    if "tr = tr0 @ [NotionList (extract_page_id url)]"
      "notion_page w tr0 (extract_page_id url) = Inr c" "content_text c \<noteq> []"
    for tr0 topic url items bm bc ac
    using search_loop_skip [OF that(2) that(3), of query bc topic items bm ac] f that(1)
    by (simp add: relevant_above_failed)
  show ?thesis using a b c by blast
qed

theorem check_content_relevance_degrades_witness:
  "groq_create down_world [NotionList ''id1''] (1 / 10)
       (relevance_prompt ''How?'' (take 1500 (content_text (page ''Keep it charged.''))))
     = Inl ExternalError
   \<and> check_content_relevance down_world ''How?'' (page ''Keep it charged.'') [NotionList ''id1''] =
      (JObj [(''relevant'', JNum (PBool False)), (''confidence'', JNum (PInt 0)),
             (''reason'', JStr ''Failed to parse relevance'')],
       [NotionList ''id1''] @ [GroqCreate (1 / 10)
          (relevance_prompt ''How?'' (take 1500 (content_text (page ''Keep it charged.''))))])
   \<and> keyword_search down_world ''How?'' [''Battery''] [] =
      Inr (None, [NotionList ''id1'', GroqCreate (1 / 10)
          (relevance_prompt ''How?'' (take 1500 (content_text (page ''Keep it charged.''))))])"
proof -
  let ?c = "page ''Keep it charged.''"
  let ?p = "relevance_prompt ''How?'' (take 1500 (content_text ?c))"
  have g: "groq_create down_world [NotionList ''id1''] (1 / 10) ?p = Inl ExternalError"
    by (simp add: down_world_def)
  note t = check_content_relevance_degrades [of down_world "[NotionList ''id1'']" "''How?''" ?c]
  have h: "(\<exists>e. groq_create down_world [NotionList ''id1''] (1 / 10) ?p = Inl e)
     \<or> (\<exists>reply. groq_create down_world [NotionList ''id1''] (1 / 10) ?p = Inr reply
            \<and> json_loads down_world reply = None)"
    using g by blast
  have a: "check_content_relevance down_world ''How?'' ?c [NotionList ''id1''] =
      (JObj [(''relevant'', JNum (PBool False)), (''confidence'', JNum (PInt 0)),
             (''reason'', JStr ''Failed to parse relevance'')],
       [NotionList ''id1''] @ [GroqCreate (1 / 10) ?p])"
    using t [OF h] by blast
  have e: "extract_page_id ''url-ending-id1'' = ''id1''"
    by (simp add: extract_page_id_def)
  have "[NotionList ''id1''] = [] @ [NotionList (extract_page_id ''url-ending-id1'')] \<and>
         map_of (NOTION_PAGES down_world) ''Battery'' = Some ''url-ending-id1'' \<and>
         notion_page down_world [] (extract_page_id ''url-ending-id1'') = Inr ?c \<and> content_text ?c \<noteq> []"
    by (simp add: e down_world_def page_def)
  then have "keyword_search down_world ''How?'' (''Battery'' # []) [] =
             keyword_search down_world ''How?'' []
               ([NotionList ''id1''] @ [GroqCreate (1 / 10) ?p])"
    using t [OF h] by blast
  then have b: "keyword_search down_world ''How?'' [''Battery''] [] =
      Inr (None, [NotionList ''id1'', GroqCreate (1 / 10) ?p])"
    by simp
  show ?thesis using g a b by blast
qed

text \<open>
  Claim C5 as stated fails twice. With the completion call raising, the dict returned is not
  the one whose reason is \<^verbatim>\<open>unparseable\<close>. And with a reply that is JSON but no verdict,
  here an object with \<^verbatim>\<open>relevant\<close> and no \<^verbatim>\<open>confidence\<close>, nothing is degraded: the relevance
  check returns the object as it is and the keyword loop raises KeyError instead of going on.
\<close>

theorem check_content_relevance_counterexample:
  "groq_create down_world [] (1 / 10) (relevance_prompt ''How?'' (take 1500 ''Keep it charged.''))
     = Inl ExternalError
   \<and> fst (check_content_relevance down_world ''How?'' (page ''Keep it charged.'') []) \<noteq>
     JObj [(''relevant'', JNum (PBool False)), (''confidence'', JNum (PInt 0)),
           (''reason'', JStr ''unparseable'')]
   \<and> fst (check_content_relevance
            (battery_world ''Keep it charged.'' (JObj [(''relevant'', JNum (PBool True))]))
            ''How?'' (page ''Keep it charged.'') [NotionList ''id1'']) =
       JObj [(''relevant'', JNum (PBool True))]
   \<and> keyword_step (battery_world ''Keep it charged.'' (JObj [(''relevant'', JNum (PBool True))]))
        ''How?'' ''Battery'' [] = Inl KeyError"
proof -
  have a: "groq_create down_world [] (1 / 10)
      (relevance_prompt ''How?'' (take 1500 ''Keep it charged.'')) = Inl ExternalError"
    by (simp add: down_world_def)
  have b: "fst (check_content_relevance down_world ''How?'' (page ''Keep it charged.'') []) \<noteq>
     JObj [(''relevant'', JNum (PBool False)), (''confidence'', JNum (PInt 0)),
           (''reason'', JStr ''unparseable'')]"
    by (simp add: check_content_relevance_eq relevance_reply_def down_world_def page_def
        failed_relevance_def)
  have c: "fst (check_content_relevance
            (battery_world ''Keep it charged.'' (JObj [(''relevant'', JNum (PBool True))]))
            ''How?'' (page ''Keep it charged.'') [NotionList ''id1'']) =
       JObj [(''relevant'', JNum (PBool True))]"
    by (simp add: check_content_relevance_eq relevance_reply_def battery_world_def)
  show ?thesis using a b c keyword_step_verdict_without_confidence by simp
qed

section \<open>Properties of the chat operation\<close>

lemma keyword_step_cases:
  assumes "keyword_step w query topic tr = Inr (res, tr1)"
  obtains
    (empty) url c where "map_of (NOTION_PAGES w) topic = Some url"
      "notion_page w tr (extract_page_id url) = Inr c" "content_text c = []"
      "res = None" "tr1 = tr @ [NotionList (extract_page_id url)]"
  | (rejected) url c where "map_of (NOTION_PAGES w) topic = Some url"
      "notion_page w tr (extract_page_id url) = Inr c" "content_text c \<noteq> []"
      "relevant_above (relevance_reply w (tr @ [NotionList (extract_page_id url)])
         (relevance_prompt query (take 1500 (content_text c)))) (PInt 60) = Inr False"
      "res = None"
      "tr1 = tr @ [NotionList (extract_page_id url),
                GroqCreate (1 / 10) (relevance_prompt query (take 1500 (content_text c)))]"
  | (accepted) url c where "map_of (NOTION_PAGES w) topic = Some url"
      "notion_page w tr (extract_page_id url) = Inr c" "content_text c \<noteq> []"
      "relevant_above (relevance_reply w (tr @ [NotionList (extract_page_id url)])
         (relevance_prompt query (take 1500 (content_text c)))) (PInt 60) = Inr True"
      "res = Some (KeywordMatch topic c (relevance_reply w (tr @ [NotionList (extract_page_id url)])
         (relevance_prompt query (take 1500 (content_text c)))))"
      "tr1 = tr @ [NotionList (extract_page_id url),
                GroqCreate (1 / 10) (relevance_prompt query (take 1500 (content_text c)))]"
proof -
  obtain url where url: "map_of (NOTION_PAGES w) topic = Some url"
    using assms by (cases "map_of (NOTION_PAGES w) topic") (simp_all add: keyword_step_def)
  obtain c where c: "notion_page w tr (extract_page_id url) = Inr c"
    using assms url
    by (cases "notion_page w tr (extract_page_id url)")
      (simp_all add: keyword_step_def fetch_page_content_def)
  show thesis
  proof (cases "content_text c = []")
    case True
    then show thesis using assms url c empty keyword_step_empty by fastforce
  next
    case False
    let ?p = "relevance_prompt query (take 1500 (content_text c))"
    let ?v = "relevance_reply w (tr @ [NotionList (extract_page_id url)]) ?p"
    note ks = keyword_step_scored [OF url c False, of query]
    from assms ks obtain b where b: "relevant_above ?v (PInt 60) = Inr b"
      by (cases "relevant_above ?v (PInt 60)") (simp_all add: Let_def)
    show thesis
    proof (cases b)
      case True
      then show thesis using assms ks b accepted [OF url c False] by (simp add: Let_def)
    next
      case False
      then show thesis using assms ks b rejected [OF url c \<open>content_text c \<noteq> []\<close>]
        by (simp add: Let_def)
    qed
  qed
qed


lemma keyword_search_match:
  "keyword_search w query topics tr = Inr (Some out, tr1) \<Longrightarrow>
   \<exists>topic c v. out = KeywordMatch topic c v \<and> topic \<in> set topics \<and> content_text c \<noteq> [] \<and>
     relevant_above v (PInt 60) = Inr True \<and> fetched w tr1 topic c \<and> scored w tr1 query c v"
proof (induction topics arbitrary: tr)
  case Nil
  then show ?case by simp
next
  case (Cons topic topics)
  from Cons.prems obtain res tr2 where s: "keyword_step w query topic tr = Inr (res, tr2)"
    by (cases "keyword_step w query topic tr") auto
  from s show ?case
  proof (cases rule: keyword_step_cases)
    case (empty url c)
    then have "keyword_search w query topics tr2 = Inr (Some out, tr1)"
      using Cons.prems s by simp
    then show ?thesis using Cons.IH by fastforce
  next
    case (rejected url c)
    then have "keyword_search w query topics tr2 = Inr (Some out, tr1)"
      using Cons.prems s by simp
    then show ?thesis using Cons.IH by fastforce
  next
    case (accepted url c)
    let ?id = "extract_page_id url"
    let ?p = "relevance_prompt query (take 1500 (content_text c))"
    let ?v = "relevance_reply w (tr @ [NotionList ?id]) ?p"
    have o: "out = KeywordMatch topic c ?v" and t: "tr1 = tr2"
      using Cons.prems s accepted by simp_all
    have "(topic, url) \<in> set (NOTION_PAGES w)"
      using accepted(1) by (rule map_of_SomeD)
    then have f: "fetched w (tr @ NotionList ?id # [GroqCreate (1 / 10) ?p]) topic c"
      using fetched_here accepted(2) by blast
    have "scored w ((tr @ [NotionList ?id]) @ GroqCreate (1 / 10) ?p # []) query c ?v"
      by (rule scored_here)
    then have sc: "scored w (tr @ [NotionList ?id, GroqCreate (1 / 10) ?p]) query c ?v"
      by simp
    show ?thesis using o t f sc accepted by auto
  qed
qed

lemma resolve_keyword:
  "resolve w query = Inr (KeywordMatch topic c v, tr1) \<Longrightarrow>
   keyword_search w query (find_relevant_topics w query) [] =
     Inr (Some (KeywordMatch topic c v), tr1)"
proof -
  assume a: "resolve w query = Inr (KeywordMatch topic c v, tr1)"
  show ?thesis
  proof (cases "keyword_search w query (find_relevant_topics w query) []")
    case (Inl e)
    then show ?thesis using a by (simp add: resolve_def)
  next
    case (Inr res)
    obtain o1 tr where res: "res = (o1, tr)" by (cases res)
    show ?thesis
    proof (cases o1)
      case (Some m)
      then show ?thesis using a Inr res by (simp add: resolve_def)
    next
      case None
      then have "semantic_search w query tr = Inr (KeywordMatch topic c v, tr1)"
        using a Inr res by (simp add: resolve_def)
      then show ?thesis
        by (auto simp: semantic_search_def split: sum.splits option.splits bool.splits prod.splits)
    qed
  qed
qed

lemma resolve_keyword_invariant:
  assumes "resolve w query = Inr (KeywordMatch topic c v, tr)"
  shows "(\<exists>x. subscript v ''confidence'' = Inr (JNum x) \<and> num_gt x (PInt 60)) \<and>
     content_text c \<noteq> [] \<and> fetched w tr topic c"
proof -
  obtain t' c' v' where "KeywordMatch topic c v = KeywordMatch t' c' v'" "content_text c' \<noteq> []"
    "relevant_above v' (PInt 60) = Inr True" "fetched w tr t' c'"
    using keyword_search_match [OF resolve_keyword [OF assms]] by blast
  then have "content_text c \<noteq> []" "relevant_above v (PInt 60) = Inr True" "fetched w tr topic c"
    by simp_all
  then show ?thesis using relevant_above_True_iff by blast
qed

lemma resolve_semantic_invariant:
  assumes "resolve w query = Inr (SemanticMatch bm, tr)"
  shows "(\<exists>x. bm_confidence bm = JNum x \<and> num_gt x (PInt 50)) \<and>
     content_text (bm_content bm) \<noteq> [] \<and> fetched w tr (bm_topic bm) (bm_content bm)"
proof -
  obtain tr0 ac where s: "search_all_topics w query tr0 = Inr ((Some bm, ac), tr)"
    and g: "py_gt (bm_confidence bm) (PInt 50) = Inr True"
    using resolve_semantic [OF assms] by blast
  obtain bc where "tracked w query (Some bm, bc, ac, tr)"
    using search_all_topics_tracked [OF s] by blast
  then have t: "bm_confidence bm = JNum bc" "content_text (bm_content bm) \<noteq> []"
    "fetched w tr (bm_topic bm) (bm_content bm)"
    by (simp_all add: tracked_def)
  then have "num_gt bc (PInt 50)" using g by simp
  then show ?thesis using t by blast
qed

lemma chat_cases:
  assumes "chat w data = Inr ((ChatJson j, status), tr)"
  obtains q out tr0 answer where "py_get data ''query'' = Inr (JStr q)" "q \<noteq> []"
    "resolve w q = Inr (out, tr0)"
    "groq_create w tr0 (3 / 10) (answer_prompt w q out) = Inr answer"
    "answer_json w out answer = Inr j" "status = 200"
    "tr = tr0 @ [GroqCreate (3 / 10) (answer_prompt w q out)]"
proof -
  obtain query where g: "py_get data ''query'' = Inr query"
    using assms by (cases "py_get data ''query''") (simp_all add: chat_def)
  have t: "truthy query"
    using assms g by (auto simp: chat_def split: if_splits)
  then obtain q where "query = JStr q"
    using assms g by (cases query) (simp_all add: chat_def)
  then have q: "py_get data ''query'' = Inr (JStr q)" and ne: "q \<noteq> []"
    using g t by simp_all
  obtain out tr0 where r: "resolve w q = Inr (out, tr0)"
    using assms q ne by (cases "resolve w q") (auto simp: chat_def)
  then have c: "compose w q out tr0 = Inr ((ChatJson j, status), tr)"
    using assms q ne by (simp add: chat_def)
  then obtain answer where a: "groq_create w tr0 (3 / 10) (answer_prompt w q out) = Inr answer"
    by (cases "groq_create w tr0 (3 / 10) (answer_prompt w q out)")
      (simp_all add: compose_def ask_groq_def)
  then have "answer_json w out answer = Inr j \<and> status = 200 \<and>
      tr = tr0 @ [GroqCreate (3 / 10) (answer_prompt w q out)]"
    using c by (cases "answer_json w out answer") (simp_all add: compose_def ask_groq_def)
  then show thesis using that q ne r a by blast
qed

lemma battery_in_query: "str_in (lower ''Battery'') (lower ''How do I maintain my battery?'')"
  by code_simp

lemma charger_not_in_query: "\<not> str_in (lower ''Charger'') (lower ''How do I maintain my battery?'')"
  by code_simp

lemma battery_candidates:
  "NOTION_PAGES w = [(''Battery'', u1), (''Charger'', u2)] \<Longrightarrow>
   find_relevant_topics w ''How do I maintain my battery?'' = [''Battery'']"
  by (simp add: find_relevant_topics_def battery_in_query charger_not_in_query)

lemma id1: "extract_page_id ''url-ending-id1'' = ''id1''"
  by (simp add: extract_page_id_def)

lemma battery_resolve:
  "resolve (battery_world ''Keep it charged.'' (verdict True 80)) ''How do I maintain my battery?'' =
     Inr (KeywordMatch ''Battery'' (page ''Keep it charged.'') (verdict True 80),
          [NotionList ''id1'',
           GroqCreate (1 / 10) (relevance_prompt ''How do I maintain my battery?'' ''Keep it charged.'')])"
proof -
  let ?w = "battery_world ''Keep it charged.'' (verdict True 80)"
  have p: "NOTION_PAGES ?w = [(''Battery'', ''url-ending-id1''), (''Charger'', ''url-ending-id2'')]"
    by (simp add: battery_world_def)
  have s: "keyword_step ?w ''How do I maintain my battery?'' ''Battery'' [] =
     Inr (Some (KeywordMatch ''Battery'' (page ''Keep it charged.'') (verdict True 80)),
          [NotionList ''id1'',
           GroqCreate (1 / 10) (relevance_prompt ''How do I maintain my battery?'' ''Keep it charged.'')])"
    by (simp add: keyword_step_def battery_world_def fetch_page_content_def id1 page_def
        check_content_relevance_eq relevance_reply_def relevant_above_def verdict_def num_gt_def)
  show ?thesis
    by (simp add: resolve_def battery_candidates [OF p] s)
qed

text \<open>
  Claim C2. Whatever the query, the catalog and the replies: a keyword match carries a
  confidence that is a number strictly greater than 60, a semantic match one strictly greater
  than 50 (so do the responses tagged \<^verbatim>\<open>keyword_match\<close> and \<^verbatim>\<open>semantic_search\<close>), and
  either carries the content of a fetch of its topic, whose text is not empty. A fetch that
  returns empty text ends the pass for that topic in both loops before any verdict is asked
  for, with no match and the best match unchanged. Only the no-match outcome is without
  content.
\<close>

theorem resolve_match_above_threshold_with_text:
  "(resolve w query = Inr (out, tr) \<longrightarrow>
      (case out of
         KeywordMatch topic c v \<Rightarrow>
           (\<exists>x. subscript v ''confidence'' = Inr (JNum x) \<and> num_gt x (PInt 60)) \<and>
           content_text c \<noteq> [] \<and> fetched w tr topic c
       | SemanticMatch bm \<Rightarrow>
           (\<exists>x. bm_confidence bm = JNum x \<and> num_gt x (PInt 50)) \<and>
           content_text (bm_content bm) \<noteq> [] \<and> fetched w tr (bm_topic bm) (bm_content bm)
       | NoMatch \<Rightarrow> True))
   \<and> (chat w data = Inr ((ChatJson j, status), tr2) \<longrightarrow>
        (r_source j = ''keyword_match'' \<longrightarrow> (\<exists>x. r_confidence j = JNum x \<and> num_gt x (PInt 60))) \<and>
        (r_source j = ''semantic_search'' \<longrightarrow> (\<exists>x. r_confidence j = JNum x \<and> num_gt x (PInt 50))))
   \<and> (map_of (NOTION_PAGES w) topic0 = Some url0 \<and>
       notion_page w tr0 (extract_page_id url0) = Inr c0 \<and> content_text c0 = []
       \<longrightarrow> keyword_step w query topic0 tr0 = Inr (None, tr0 @ [NotionList (extract_page_id url0)]))
   \<and> (notion_page w tr0 (extract_page_id url0) = Inr c0 \<and> content_text c0 = []
       \<longrightarrow> search_step w query (topic0, url0) (bm0, bc0, ac0, tr0) =
             Inr (bm0, bc0, ac0, tr0 @ [NotionList (extract_page_id url0)]))"
proof -
  have a: "resolve w query = Inr (out, tr) \<longrightarrow>
      (case out of
         KeywordMatch topic c v \<Rightarrow>
           (\<exists>x. subscript v ''confidence'' = Inr (JNum x) \<and> num_gt x (PInt 60)) \<and>
           content_text c \<noteq> [] \<and> fetched w tr topic c
       | SemanticMatch bm \<Rightarrow>
           (\<exists>x. bm_confidence bm = JNum x \<and> num_gt x (PInt 50)) \<and>
           content_text (bm_content bm) \<noteq> [] \<and> fetched w tr (bm_topic bm) (bm_content bm)
       | NoMatch \<Rightarrow> True)"
    using resolve_keyword_invariant resolve_semantic_invariant by (cases out) auto
  have b: "(r_source j = ''keyword_match'' \<longrightarrow> (\<exists>x. r_confidence j = JNum x \<and> num_gt x (PInt 60))) \<and>
        (r_source j = ''semantic_search'' \<longrightarrow> (\<exists>x. r_confidence j = JNum x \<and> num_gt x (PInt 50)))"
    if c: "chat w data = Inr ((ChatJson j, status), tr2)"
  proof -
    from c obtain q o1 tr1 answer where r: "resolve w q = Inr (o1, tr1)"
      and j: "answer_json w o1 answer = Inr j"
      by (rule chat_cases)
    show ?thesis
    proof (cases o1)
      case (KeywordMatch topic c v)
      then obtain x where "subscript v ''confidence'' = Inr (JNum x)" "num_gt x (PInt 60)"
        using resolve_keyword_invariant r by blast
      then show ?thesis using j KeywordMatch by auto
    next
      case (SemanticMatch bm)
      then obtain x where "bm_confidence bm = JNum x" "num_gt x (PInt 50)"
        using resolve_semantic_invariant r by blast
      then show ?thesis using j SemanticMatch by auto
    next
      case NoMatch
      then show ?thesis using j by auto
    qed
  qed
  have c: "map_of (NOTION_PAGES w) topic0 = Some url0 \<and>
       notion_page w tr0 (extract_page_id url0) = Inr c0 \<and> content_text c0 = []
       \<longrightarrow> keyword_step w query topic0 tr0 = Inr (None, tr0 @ [NotionList (extract_page_id url0)])"
    using keyword_step_empty by blast
  have d: "notion_page w tr0 (extract_page_id url0) = Inr c0 \<and> content_text c0 = []
       \<longrightarrow> search_step w query (topic0, url0) (bm0, bc0, ac0, tr0) =
             Inr (bm0, bc0, ac0, tr0 @ [NotionList (extract_page_id url0)])"
    using search_step_empty by blast
  show ?thesis using a b c d by blast
qed

theorem resolve_match_above_threshold_with_text_witness:
  "resolve (battery_world ''Keep it charged.'' (verdict True 80)) ''How do I maintain my battery?'' =
     Inr (KeywordMatch ''Battery'' (page ''Keep it charged.'') (verdict True 80),
          [NotionList ''id1'',
           GroqCreate (1 / 10) (relevance_prompt ''How do I maintain my battery?'' ''Keep it charged.'')])
   \<and> (\<exists>x. subscript (verdict True 80) ''confidence'' = Inr (JNum x) \<and> num_gt x (PInt 60))
   \<and> content_text (page ''Keep it charged.'') \<noteq> []
   \<and> fetched (battery_world ''Keep it charged.'' (verdict True 80))
        [NotionList ''id1'',
         GroqCreate (1 / 10) (relevance_prompt ''How do I maintain my battery?'' ''Keep it charged.'')]
        ''Battery'' (page ''Keep it charged.'')
   \<and> content_text (page []) = []
   \<and> keyword_step (battery_world [] (verdict True 80)) ''How do I maintain my battery?'' ''Battery'' [] =
       Inr (None, [NotionList ''id1''])"
proof -
  note t = resolve_match_above_threshold_with_text
    [where w = "battery_world ''Keep it charged.'' (verdict True 80)"
       and query = "''How do I maintain my battery?''"
       and out = "KeywordMatch ''Battery'' (page ''Keep it charged.'') (verdict True 80)"
       and tr = "[NotionList ''id1'',
           GroqCreate (1 / 10) (relevance_prompt ''How do I maintain my battery?'' ''Keep it charged.'')]"]
  have a: "(\<exists>x. subscript (verdict True 80) ''confidence'' = Inr (JNum x) \<and> num_gt x (PInt 60))
   \<and> content_text (page ''Keep it charged.'') \<noteq> []
   \<and> fetched (battery_world ''Keep it charged.'' (verdict True 80))
        [NotionList ''id1'',
         GroqCreate (1 / 10) (relevance_prompt ''How do I maintain my battery?'' ''Keep it charged.'')]
        ''Battery'' (page ''Keep it charged.'')"
    using t battery_resolve by simp
  note u = resolve_match_above_threshold_with_text
    [where w = "battery_world [] (verdict True 80)"
       and query = "''How do I maintain my battery?''"
       and ?topic0.0 = "''Battery''" and ?url0.0 = "''url-ending-id1''" and ?tr0.0 = "[]"
       and ?c0.0 = "page []"]
  have h: "map_of (NOTION_PAGES (battery_world [] (verdict True 80))) ''Battery'' = Some ''url-ending-id1'' \<and>
       notion_page (battery_world [] (verdict True 80)) [] (extract_page_id ''url-ending-id1'') = Inr (page []) \<and>
       content_text (page []) = []"
    by (simp add: battery_world_def page_def)
  have b: "keyword_step (battery_world [] (verdict True 80)) ''How do I maintain my battery?'' ''Battery'' [] =
       Inr (None, [NotionList ''id1''])"
    using u h by (simp add: id1)
  show ?thesis using a b battery_resolve h by simp
qed











lemma resolution_call_simps:
  "resolution_call (NotionList page_id)"
  "resolution_call (GroqCreate temperature prompt) \<longleftrightarrow> temperature = 1 / 10"
  by (simp_all add: resolution_call_def)

lemma keyword_search_calls:
  "keyword_search w query topics tr = Inr (res, tr1) \<Longrightarrow> list_all resolution_call tr \<Longrightarrow>
   list_all resolution_call tr1"
proof (induction topics arbitrary: tr)
  case Nil
  then show ?case by simp
next
  case (Cons topic topics)
  from Cons.prems(1) obtain r2 tr2 where s: "keyword_step w query topic tr = Inr (r2, tr2)"
    by (cases "keyword_step w query topic tr") auto
  have l: "list_all resolution_call tr2"
    using s Cons.prems(2)
    by (cases rule: keyword_step_cases) (simp_all add: resolution_call_simps)
  show ?case
  proof (cases r2)
    case None
    then show ?thesis using Cons.IH Cons.prems(1) s l by simp
  next
    case (Some m)
    then show ?thesis using Cons.prems(1) s l by simp
  qed
qed

lemma search_loop_calls:
  "search_loop w query items (bm, bc, ac, tr) = Inr (bm1, bc1, ac1, tr1) \<Longrightarrow>
   list_all resolution_call tr \<Longrightarrow> list_all resolution_call tr1"
proof (induction items arbitrary: bm bc ac tr)
  case Nil
  then show ?case by simp
next
  case (Cons item items)
  obtain topic url where it: "item = (topic, url)" by (cases item)
  from Cons.prems(1) it obtain st2 where
    a: "search_step w query (topic, url) (bm, bc, ac, tr) = Inr st2" and
    b: "search_loop w query items st2 = Inr (bm1, bc1, ac1, tr1)"
    by (auto split: sum.splits)
  obtain bm2 bc2 ac2 tr2 where st2: "st2 = (bm2, bc2, ac2, tr2)" by (cases st2)
  have "list_all resolution_call tr2"
    using a Cons.prems(2) st2
    by (cases rule: search_step_cases) (auto simp: resolution_call_simps)
  then show ?case using Cons.IH b st2 by blast
qed

lemma resolve_calls:
  assumes "resolve w query = Inr (out, tr)"
  shows "list_all resolution_call tr"
proof (cases "keyword_search w query (find_relevant_topics w query) []")
  case (Inl e)
  then show ?thesis using assms by (simp add: resolve_def)
next
  case (Inr res)
  obtain o1 tr0 where res: "res = (o1, tr0)" by (cases res)
  have l0: "list_all resolution_call tr0"
    using keyword_search_calls Inr res by fastforce
  show ?thesis
  proof (cases o1)
    case (Some m)
    then show ?thesis using assms Inr res l0 by (simp add: resolve_def)
  next
    case None
    then have s: "semantic_search w query tr0 = Inr (out, tr)"
      using assms Inr res by (simp add: resolve_def)
    then obtain bm bc ac where
      "search_loop w query (NOTION_PAGES w) (None, PInt 0, [], tr0) = Inr (bm, bc, ac, tr)"
      by (auto simp: semantic_search_def search_all_topics_def
          split: sum.splits option.splits bool.splits prod.splits)
    then show ?thesis using search_loop_calls l0 by blast
  qed
qed

lemma resolve_no_answer_call:
  assumes "resolve w query = Inr (out, tr)"
  shows "GroqCreate (3 / 10) p \<notin> set tr"
proof
  assume "GroqCreate (3 / 10) p \<in> set tr"
  then have "resolution_call (GroqCreate (3 / 10) p)"
    using resolve_calls [OF assms] by (simp add: list_all_iff)
  then show False by (simp add: resolution_call_simps)
qed

lemma answer_json_response: "answer_json w out answer = Inr j \<Longrightarrow> r_response j = answer"
  by (cases out) (auto split: sum.splits)

lemma compose_cases:
  assumes "compose w query out tr = Inr ((ChatJson j, status), tr1)"
  shows "\<exists>answer. groq_create w tr (3 / 10) (answer_prompt w query out) = Inr answer \<and>
     answer_json w out answer = Inr j \<and> r_response j = answer \<and> status = 200 \<and>
     tr1 = tr @ [GroqCreate (3 / 10) (answer_prompt w query out)]"
proof -
  obtain answer where a: "groq_create w tr (3 / 10) (answer_prompt w query out) = Inr answer"
    using assms
    by (cases "groq_create w tr (3 / 10) (answer_prompt w query out)")
      (simp_all add: compose_def ask_groq_def)
  then have "answer_json w out answer = Inr j \<and> status = 200 \<and>
      tr1 = tr @ [GroqCreate (3 / 10) (answer_prompt w query out)]"
    using assms by (cases "answer_json w out answer") (simp_all add: compose_def ask_groq_def)
  then show ?thesis using a answer_json_response by blast
qed

lemma compose_same_prompt:
  assumes "answer_prompt w query out1 = answer_prompt w query out2"
    and "compose w query out1 tr = Inr ((ChatJson j1, s1), tr1)"
    and "compose w query out2 tr = Inr ((ChatJson j2, s2), tr2)"
  shows "tr1 = tr2 \<and> r_response j1 = r_response j2"
  using compose_cases [OF assms(2)] compose_cases [OF assms(3)] assms(1) by auto

text \<open>
  Claim C9. The prompt sent for the answer depends on the match only through its topic and
  the first 7000 characters of its text, besides the query: two keyword matches (or two
  semantic matches) of the same topic whose texts agree on their first 7000 characters,
  whatever their verdicts and images, make the answer branch send the same prompt and return
  the same response text. In every run of \<^verbatim>\<open>chat\<close> that prompt is the only call at temperature
  0.3, and it comes last; the confidence and the images go into the returned dict only.
\<close>

theorem answer_prompt_ignores_confidence_and_images:
  "(take 7000 (content_text c1) = take 7000 (content_text c2) \<and>
    compose w query (KeywordMatch topic c1 v1) tr = Inr ((ChatJson j1, s1), tr1) \<and>
    compose w query (KeywordMatch topic c2 v2) tr = Inr ((ChatJson j2, s2), tr2)
    \<longrightarrow> tr1 = tr2 \<and> r_response j1 = r_response j2 \<and>
        tr1 = tr @ [GroqCreate (3 / 10) (keyword_prompt topic (take 7000 (content_text c1)) query)])
   \<and> (bm_topic b1 = bm_topic b2 \<and>
       take 7000 (content_text (bm_content b1)) = take 7000 (content_text (bm_content b2)) \<and>
       compose w query (SemanticMatch b1) tr = Inr ((ChatJson j1, s1), tr1) \<and>
       compose w query (SemanticMatch b2) tr = Inr ((ChatJson j2, s2), tr2)
       \<longrightarrow> tr1 = tr2 \<and> r_response j1 = r_response j2 \<and>
           tr1 = tr @ [GroqCreate (3 / 10)
             (semantic_prompt (bm_topic b1) (take 7000 (content_text (bm_content b1))) query)])
   \<and> (chat w data = Inr ((ChatJson j, status), tr3)
       \<longrightarrow> (\<exists>q out tr0.
              py_get data ''query'' = Inr (JStr q) \<and> resolve w q = Inr (out, tr0) \<and>
              tr3 = tr0 @ [GroqCreate (3 / 10) (answer_prompt w q out)] \<and>
              (\<forall>p. GroqCreate (3 / 10) p \<notin> set tr0) \<and>
              (case out of
                 KeywordMatch t c v \<Rightarrow>
                   answer_prompt w q out = keyword_prompt t (take 7000 (content_text c)) q \<and>
                   subscript v ''confidence'' = Inr (r_confidence j) \<and>
                   r_images j = content_images c
               | SemanticMatch bm \<Rightarrow>
                   answer_prompt w q out =
                     semantic_prompt (bm_topic bm) (take 7000 (content_text (bm_content bm))) q \<and>
                   r_confidence j = bm_confidence bm \<and>
                   r_images j = content_images (bm_content bm)
               | NoMatch \<Rightarrow> True)))"
proof -
  have k: "tr1 = tr2 \<and> r_response j1 = r_response j2 \<and>
        tr1 = tr @ [GroqCreate (3 / 10) (keyword_prompt topic (take 7000 (content_text c1)) query)]"
    if "take 7000 (content_text c1) = take 7000 (content_text c2)"
      "compose w query (KeywordMatch topic c1 v1) tr = Inr ((ChatJson j1, s1), tr1)"
      "compose w query (KeywordMatch topic c2 v2) tr = Inr ((ChatJson j2, s2), tr2)"
  proof -
    have "answer_prompt w query (KeywordMatch topic c1 v1) =
        answer_prompt w query (KeywordMatch topic c2 v2)"
      using that(1) by simp
    then have "tr1 = tr2 \<and> r_response j1 = r_response j2"
      using compose_same_prompt that(2,3) by blast
    then show ?thesis using compose_cases [OF that(2)] by simp
  qed
  have s: "tr1 = tr2 \<and> r_response j1 = r_response j2 \<and>
           tr1 = tr @ [GroqCreate (3 / 10)
             (semantic_prompt (bm_topic b1) (take 7000 (content_text (bm_content b1))) query)]"
    if "bm_topic b1 = bm_topic b2"
      "take 7000 (content_text (bm_content b1)) = take 7000 (content_text (bm_content b2))"
      "compose w query (SemanticMatch b1) tr = Inr ((ChatJson j1, s1), tr1)"
      "compose w query (SemanticMatch b2) tr = Inr ((ChatJson j2, s2), tr2)"
  proof -
    have "answer_prompt w query (SemanticMatch b1) = answer_prompt w query (SemanticMatch b2)"
      using that(1,2) by simp
    then have "tr1 = tr2 \<and> r_response j1 = r_response j2"
      using compose_same_prompt that(3,4) by blast
    then show ?thesis using compose_cases [OF that(3)] by simp
  qed
  have c: "\<exists>q out tr0.
              py_get data ''query'' = Inr (JStr q) \<and> resolve w q = Inr (out, tr0) \<and>
              tr3 = tr0 @ [GroqCreate (3 / 10) (answer_prompt w q out)] \<and>
              (\<forall>p. GroqCreate (3 / 10) p \<notin> set tr0) \<and>
              (case out of
                 KeywordMatch t c v \<Rightarrow>
                   answer_prompt w q out = keyword_prompt t (take 7000 (content_text c)) q \<and>
                   subscript v ''confidence'' = Inr (r_confidence j) \<and>
                   r_images j = content_images c
               | SemanticMatch bm \<Rightarrow>
                   answer_prompt w q out =
                     semantic_prompt (bm_topic bm) (take 7000 (content_text (bm_content bm))) q \<and>
                   r_confidence j = bm_confidence bm \<and>
                   r_images j = content_images (bm_content bm)
               | NoMatch \<Rightarrow> True)"
    if "chat w data = Inr ((ChatJson j, status), tr3)"
  proof -
    from that obtain q out tr0 answer where q: "py_get data ''query'' = Inr (JStr q)"
      and r: "resolve w q = Inr (out, tr0)"
      and j: "answer_json w out answer = Inr j"
      and t: "tr3 = tr0 @ [GroqCreate (3 / 10) (answer_prompt w q out)]"
      by (rule chat_cases)
    have n: "\<forall>p. GroqCreate (3 / 10) p \<notin> set tr0"
      using resolve_no_answer_call [OF r] by blast
    have "(case out of
                 KeywordMatch t c v \<Rightarrow>
                   answer_prompt w q out = keyword_prompt t (take 7000 (content_text c)) q \<and>
                   subscript v ''confidence'' = Inr (r_confidence j) \<and>
                   r_images j = content_images c
               | SemanticMatch bm \<Rightarrow>
                   answer_prompt w q out =
                     semantic_prompt (bm_topic bm) (take 7000 (content_text (bm_content bm))) q \<and>
                   r_confidence j = bm_confidence bm \<and>
                   r_images j = content_images (bm_content bm)
               | NoMatch \<Rightarrow> True)"
      using j by (cases out) (auto split: sum.splits)
    then show ?thesis using q r t n by blast
  qed
  show ?thesis using k s c by blast
qed

theorem answer_prompt_ignores_confidence_and_images_witness:
  "\<exists>j1 j2 tr1.
     compose (battery_world ''Keep it charged.'' (verdict True 80)) ''How?''
       (KeywordMatch ''Battery'' (page ''Keep it charged.'') (verdict True 80)) [] =
       Inr ((ChatJson j1, 200), tr1) \<and>
     compose (battery_world ''Keep it charged.'' (verdict True 80)) ''How?''
       (KeywordMatch ''Battery''
          \<lparr>content_text = ''Keep it charged.'',
           content_images = [\<lparr>image_url = ''https://example.com/cell.png'',
                               image_caption = ''Cell''\<rparr>]\<rparr>
          (verdict True 95)) [] =
       Inr ((ChatJson j2, 200), tr1) \<and>
     r_confidence j1 = JNum (PInt 80) \<and> r_confidence j2 = JNum (PInt 95) \<and>
     r_images j1 = [] \<and> r_images j2 \<noteq> [] \<and> r_response j1 = r_response j2 \<and>
     tr1 = [GroqCreate (3 / 10) (keyword_prompt ''Battery'' ''Keep it charged.'' ''How?'')]"
proof -
  let ?w = "battery_world ''Keep it charged.'' (verdict True 80)"
  let ?c1 = "page ''Keep it charged.''"
  let ?c2 = "\<lparr>content_text = ''Keep it charged.'',
           content_images = [\<lparr>image_url = ''https://example.com/cell.png'',
                               image_caption = ''Cell''\<rparr>]\<rparr>"
  let ?j1 = "\<lparr>r_topic = Some ''Battery'', r_response = ''reply'', r_confidence = JNum (PInt 80),
              r_source = ''keyword_match'', r_available_topics = None, r_images = []\<rparr>"
  let ?j2 = "\<lparr>r_topic = Some ''Battery'', r_response = ''reply'', r_confidence = JNum (PInt 95),
              r_source = ''keyword_match'', r_available_topics = None,
              r_images = [\<lparr>image_url = ''https://example.com/cell.png'',
                               image_caption = ''Cell''\<rparr>]\<rparr>"
  let ?tr = "[GroqCreate (3 / 10) (keyword_prompt ''Battery'' ''Keep it charged.'' ''How?'')]"
  have a: "compose ?w ''How?'' (KeywordMatch ''Battery'' ?c1 (verdict True 80)) [] =
      Inr ((ChatJson ?j1, 200), ?tr)"
    by (simp add: compose_def ask_groq_def battery_world_def verdict_def page_def)
  have b: "compose ?w ''How?'' (KeywordMatch ''Battery'' ?c2 (verdict True 95)) [] =
      Inr ((ChatJson ?j2, 200), ?tr)"
    by (simp add: compose_def ask_groq_def battery_world_def verdict_def)
  have e: "take 7000 (content_text ?c1) = take 7000 (content_text ?c2)"
    by (simp add: page_def)
  have "?tr = ?tr \<and> r_response ?j1 = r_response ?j2 \<and>
      ?tr = [] @ [GroqCreate (3 / 10) (keyword_prompt ''Battery'' (take 7000 (content_text ?c1)) ''How?'')]"
    using answer_prompt_ignores_confidence_and_images
      [where w = ?w and query = "''How?''" and topic = "''Battery''" and ?c1.0 = ?c1 and ?c2.0 = ?c2
         and ?v1.0 = "verdict True 80" and ?v2.0 = "verdict True 95" and tr = "[]"
         and ?j1.0 = ?j1 and ?j2.0 = ?j2 and ?s1.0 = 200 and ?s2.0 = 200
         and ?tr1.0 = ?tr and ?tr2.0 = ?tr]
      a b e
    by blast
  then show ?thesis using a b by auto
qed

text \<open>
  Where the body of the request is a JSON object whose query is missing or is the empty
  string, the request is answered with the error body and status 400, and no call to Notion
  or Groq has been made: the trace is empty.
\<close>

lemma chat_object_without_query_rejected:
  "map_of d ''query'' = None \<or> map_of d ''query'' = Some (JStr [])
   \<Longrightarrow> chat w (JObj d) = Inr ((ErrorJson ''No query provided'', 400), [])"
  by (auto simp: chat_def dict_get_def)

lemma chat_object_without_query_rejected_example:
  "chat down_world (JObj []) = Inr ((ErrorJson ''No query provided'', 400), [])
   \<and> chat down_world (JObj [(''query'', JStr '''')]) =
       Inr ((ErrorJson ''No query provided'', 400), [])"
  using chat_object_without_query_rejected [of "[]" down_world]
    chat_object_without_query_rejected [of "[(''query'', JStr '''')]" down_world]
  by simp

text \<open>
  Claim C8. A request whose query is empty or missing is to be rejected with status 400 and
  the error body before any resolution work. A request whose body is \<^verbatim>\<open>null\<close>, a list or a
  string carries no query either, but \<^verbatim>\<open>chat\<close> does not reach its check of the query:
  \<^verbatim>\<open>data.get\<close> raises AttributeError, whatever the world, and no error body is returned.
\<close>

theorem chat_body_without_get_raises:
  "chat w JNull = Inl AttributeError \<and> chat w (JArr []) = Inl AttributeError
   \<and> chat w (JStr []) = Inl AttributeError"
  by (simp add: chat_def)

end
